theory Spec2Isabelle
  imports Main
begin

section \<open>The load package executor of dlt (dlt/load/load.py)\<close>

text \<open>
  The methods of the class \<open>Load\<close> are embedded as functions on an explicit state: the
  schema of the package, the folders of the load storage, the metrics and a trace of the
  calls made to the storage and to the destination. A method that can raise returns an
  error or a value, together with the state it leaves behind, since the storage keeps
  what was done before the exception. Left out are the log messages, the release of the
  destination client at the end of a \<open>with\<close> block, the signal that \<open>sleep\<close> may raise
  between two passes of the poll loop, and the parallelism of the thread pool: the
  workers of \<open>spool_new_jobs\<close> run one after the other, in the order of the files.
\<close>

subsection \<open>Job files, job states and table schemas\<close>

text \<open>
  Modelled from the spec: \<open>LoadStorage.parse_job_file_name\<close> and
  \<open>ParsedLoadJobFileName\<close> (dlt.common.storages) are not part of the sources at hand.
  The spec gives the filename grammar
  \<^verbatim>\<open><table_name>.<file_id>.<retry_count>.<file_format>\<close> and says that the filename is the
  identity of a job file. A file name is therefore represented by its four parsed
  components, and \<open>parse_job_file_name\<close> is the identity on that representation.
\<close>

record ParsedLoadJobFileName =
  table_name :: string
  file_id :: string
  retry_count :: nat
  file_format :: string

text \<open>
  Modelled from the spec: \<open>job_id()\<close> is \<^verbatim>\<open><table_name>.<file_id>\<close>, the name without the
  retry count.
\<close>

definition job_id :: "ParsedLoadJobFileName \<Rightarrow> string" where
  "job_id p = table_name p @ ''.'' @ file_id p"

text \<open>The four folders of a package (\<open>TJobState\<close>) and the states a job reports
  (\<open>TLoadJobState\<close>).\<close>

datatype TJobState = new_jobs | started_jobs | failed_jobs | completed_jobs

datatype TLoadJobState = running | failed | retry | completed

text \<open>
  A table of the schema (\<open>TTableSchema\<close>, a dictionary in the source): only the keys the
  loader reads. \<open>None\<close> stands for an absent key.
\<close>

record TTableSchema =
  name :: string
  write_disposition :: "string option"
  parent :: "string option"

text \<open>\<open>schema.tables\<close>: a dictionary from table names to tables, in insertion order.\<close>

type_synonym TSchemaTables = "(string \<times> TTableSchema) list"

subsection \<open>Exceptions\<close>

text \<open>
  Modelled from the spec: the exception classes (dlt.load.exceptions,
  dlt.destinations.exceptions, dlt.common.exceptions) are not part of the sources at hand.
  The spec classifies unsupported write disposition, unsupported file format and unknown
  table as terminal destination errors. \<open>RecursionError\<close> is what Python raises when the
  parent links of a schema form a cycle.
\<close>

datatype error =
    DestinationTerminalException string
  | DestinationTransientException string
  | TerminalValueError string
  | LoadClientUnsupportedFileFormats string "string list" ParsedLoadJobFileName
  | LoadClientUnsupportedWriteDisposition string string ParsedLoadJobFileName
  | LoadJobUnknownTableException string ParsedLoadJobFileName
  | LoadClientJobFailed string string string
  | KeyError string
  | ValueError string
  | RecursionError
  | AssertionError
  | LoadPackageNotArchivable
  | Exception string

text \<open>\<open>isinstance(e, DestinationTerminalException)\<close>.\<close>

fun is_DestinationTerminalException :: "error \<Rightarrow> bool" where
  "is_DestinationTerminalException (DestinationTerminalException _) = True"
| "is_DestinationTerminalException (LoadClientUnsupportedFileFormats _ _ _) = True"
| "is_DestinationTerminalException (LoadClientUnsupportedWriteDisposition _ _ _) = True"
| "is_DestinationTerminalException (LoadJobUnknownTableException _ _) = True"
| "is_DestinationTerminalException _ = False"

fun is_TerminalValueError :: "error \<Rightarrow> bool" where
  "is_TerminalValueError (TerminalValueError _) = True"
| "is_TerminalValueError _ = False"

fun is_LoadClientJobFailed :: "error \<Rightarrow> bool" where
  "is_LoadClientJobFailed (LoadClientJobFailed _ _ _) = True"
| "is_LoadClientJobFailed _ = False"

text \<open>
  Modelled from the spec: \<open>pretty_format_exception\<close> (dlt.common.runtime.logger) gives the
  text of the exception being handled; here the message the exception carries, or the
  class name where it carries none.
\<close>

fun pretty_format_exception :: "error \<Rightarrow> string" where
  "pretty_format_exception (DestinationTerminalException m) = m"
| "pretty_format_exception (DestinationTransientException m) = m"
| "pretty_format_exception (TerminalValueError m) = m"
| "pretty_format_exception (LoadClientUnsupportedFileFormats f _ _) =
     ''LoadClientUnsupportedFileFormats '' @ f"
| "pretty_format_exception (LoadClientUnsupportedWriteDisposition t d _) =
     ''LoadClientUnsupportedWriteDisposition '' @ t @ '' '' @ d"
| "pretty_format_exception (LoadJobUnknownTableException t _) =
     ''LoadJobUnknownTableException '' @ t"
| "pretty_format_exception (LoadClientJobFailed l j m) = m"
| "pretty_format_exception (KeyError k) = k"
| "pretty_format_exception (ValueError m) = m"
| "pretty_format_exception RecursionError = ''RecursionError''"
| "pretty_format_exception AssertionError = ''AssertionError''"
| "pretty_format_exception LoadPackageNotArchivable = ''LoadPackageNotArchivable''"
| "pretty_format_exception (Exception m) = m"

subsection \<open>Runtime jobs and the destination client\<close>

text \<open>
  A \<open>LoadJob\<close> is a handle of the destination. \<open>state\<close> is what \<open>state()\<close> answers now,
  \<open>later_states\<close> what it will answer at the following polls (the last answer repeats),
  \<open>followup\<close> is \<open>isinstance(job, FollowupJob)\<close>. A \<open>NewLoadJob\<close> is a job as well;
  its \<open>new_file_path()\<close> is its \<open>file_name\<close>.
\<close>

record LoadJob =
  file_name :: ParsedLoadJobFileName
  state :: TLoadJobState
  later_states :: "TLoadJobState list"
  exception :: string
  followup :: bool

text \<open>The handle as it answers at the next pass of the poll loop.\<close>

definition next_poll :: "LoadJob \<Rightarrow> LoadJob" where
  "next_poll job =
     (case later_states job of
        [] \<Rightarrow> job
      | s # ss \<Rightarrow> job\<lparr>state := s, later_states := ss\<rparr>)"

text \<open>
  Modelled from the spec: \<open>EmptyLoadJob.from_file_path\<close> (dlt.destinations.job_impl) builds
  a job-shaped value for the file that reports the given state and carries the exception
  text.
\<close>

definition EmptyLoadJob_from_file_path ::
  "ParsedLoadJobFileName \<Rightarrow> TLoadJobState \<Rightarrow> string \<Rightarrow> LoadJob" where
  "EmptyLoadJob_from_file_path file_path st message =
     \<lparr>file_name = file_path, state = st, later_states = [], exception = message,
      followup = False\<rparr>"

text \<open>
  The destination client is external; its operations are parameters. The loader handles
  the exceptions of \<open>start_file_load\<close> and \<open>restore_file_load\<close>, so these return an error
  or a job.
\<close>

record JobClient =
  client_start_file_load :: "TTableSchema \<Rightarrow> ParsedLoadJobFileName \<Rightarrow> error + LoadJob"
  client_restore_file_load :: "ParsedLoadJobFileName \<Rightarrow> error + LoadJob"
  client_create_merge_job :: "TTableSchema list \<Rightarrow> LoadJob"
  client_update_storage_schema :: "bool \<Rightarrow> string set \<Rightarrow> string list \<Rightarrow> string list"

record LoaderConfiguration =
  workers :: nat
  raise_on_failed_jobs :: bool

text \<open>The \<open>Load\<close> object: its configuration, the capabilities of the destination and
  the destination's client.\<close>

record Load =
  config :: LoaderConfiguration
  supported_loader_file_formats :: "string list"
  client :: JobClient

subsection \<open>The state the loader works on\<close>

text \<open>Calls to the storage and to the destination, in the order they happen.\<close>

datatype event =
    ev_start_job ParsedLoadJobFileName
  | ev_fail_job ParsedLoadJobFileName string
  | ev_retry_job ParsedLoadJobFileName
  | ev_complete_job ParsedLoadJobFileName
  | ev_add_new_job ParsedLoadJobFileName TJobState
  | ev_complete_load_package bool
  | ev_commit_schema_update
  | ev_initialize_storage bool "string list"
  | ev_update_storage_schema bool "string list"
  | ev_start_file_load ParsedLoadJobFileName
  | ev_restore_file_load ParsedLoadJobFileName
  | ev_create_merge_job "string list"
  | ev_complete_load string

text \<open>
  One load package with its schema, the metrics and the trace of calls.
  \<open>jobs\<close> gives the folder of every job file of the package; \<open>failed_messages\<close> are the
  exception files beside failed jobs; \<open>archived\<close> is \<open>Some aborted\<close> once the package is
  archived; \<open>job_wait_summary\<close> lists the final locations whose elapsed time was observed.
\<close>

record world =
  tables :: TSchemaTables
  jobs :: "(ParsedLoadJobFileName \<times> TJobState) list"
  failed_messages :: "(ParsedLoadJobFileName \<times> string) list"
  schema_update :: "string list option"
  applied_update :: "string list option"
  archived :: "bool option"
  trace :: "event list"
  job_gauge :: "string \<Rightarrow> nat"
  job_counter :: "string \<Rightarrow> nat"
  job_wait_summary :: "(ParsedLoadJobFileName \<times> TJobState) list"
  load_counter :: nat
  processed_load_ids :: "string list"

definition log :: "event list \<Rightarrow> world \<Rightarrow> world" where
  "log es w = w\<lparr>trace := trace w @ es\<rparr>"

subsection \<open>Schema utilities\<close>

text \<open>
  Modelled from the spec: \<open>get_write_disposition\<close>, \<open>get_top_level_table\<close> and
  \<open>get_child_tables\<close> (dlt.common.schema.utils) are not part of the sources at hand.
  The write disposition of a table is its own when it has one and is inherited from the
  parent otherwise; the top-level table is reached by climbing the parent links; the
  child tables of a table are the table and all its descendants, parents first.
  A missing table is a \<open>KeyError\<close>, a chain without write disposition a \<open>ValueError\<close>.
  The recursion is bounded by the number of tables, which every chain without a cycle
  respects; running out of it is Python's \<open>RecursionError\<close>.
\<close>

fun get_write_disposition_rec :: "nat \<Rightarrow> TSchemaTables \<Rightarrow> string \<Rightarrow> error + string" where
  "get_write_disposition_rec 0 tbls tn = Inl RecursionError"
| "get_write_disposition_rec (Suc n) tbls tn =
     (case map_of tbls tn of
        None \<Rightarrow> Inl (KeyError tn)
      | Some table \<Rightarrow>
          (case write_disposition table of
             Some w_d \<Rightarrow> Inr w_d
           | None \<Rightarrow>
               (case parent table of
                  Some p \<Rightarrow> get_write_disposition_rec n tbls p
                | None \<Rightarrow> Inl (ValueError tn))))"

definition get_write_disposition :: "TSchemaTables \<Rightarrow> string \<Rightarrow> error + string" where
  "get_write_disposition tbls tn = get_write_disposition_rec (Suc (length tbls)) tbls tn"

fun get_top_level_table_rec :: "nat \<Rightarrow> TSchemaTables \<Rightarrow> string \<Rightarrow> error + TTableSchema" where
  "get_top_level_table_rec 0 tbls tn = Inl RecursionError"
| "get_top_level_table_rec (Suc n) tbls tn =
     (case map_of tbls tn of
        None \<Rightarrow> Inl (KeyError tn)
      | Some table \<Rightarrow>
          (case parent table of
             Some p \<Rightarrow> get_top_level_table_rec n tbls p
           | None \<Rightarrow> Inr table))"

definition get_top_level_table :: "TSchemaTables \<Rightarrow> string \<Rightarrow> error + TTableSchema" where
  "get_top_level_table tbls tn = get_top_level_table_rec (Suc (length tbls)) tbls tn"

text \<open>The chains of a list of tables, one after the other; the first error wins.\<close>

fun concat_chains :: "(error + TTableSchema list) list \<Rightarrow> error + TTableSchema list" where
  "concat_chains [] = Inr []"
| "concat_chains (Inl e # rs) = Inl e"
| "concat_chains (Inr c # rs) =
     (case concat_chains rs of Inl e \<Rightarrow> Inl e | Inr cs \<Rightarrow> Inr (c @ cs))"

fun child_chain :: "nat \<Rightarrow> TSchemaTables \<Rightarrow> TTableSchema \<Rightarrow> error + TTableSchema list" where
  "child_chain 0 tbls t = Inl RecursionError"
| "child_chain (Suc n) tbls t =
     (case concat_chains
             (map (child_chain n tbls)
                (filter (\<lambda>candidate. parent candidate = Some (name t)) (map snd tbls))) of
        Inl e \<Rightarrow> Inl e
      | Inr cs \<Rightarrow> Inr (t # cs))"

definition get_child_tables :: "TSchemaTables \<Rightarrow> string \<Rightarrow> error + TTableSchema list" where
  "get_child_tables tbls tn =
     (case map_of tbls tn of
        None \<Rightarrow> Inl (KeyError tn)
      | Some table \<Rightarrow> child_chain (Suc (length tbls)) tbls table)"

subsection \<open>Load.get_load_table\<close>

text \<open>\<open>table["write_disposition"] = ...\<close> writes into the table object that
  \<open>schema.get_table\<close> handed out, which is the one stored in the schema.\<close>

definition set_table :: "string \<Rightarrow> TTableSchema \<Rightarrow> TSchemaTables \<Rightarrow> TSchemaTables" where
  "set_table tn table tbls = map (\<lambda>(k, t). if k = tn then (k, table) else (k, t)) tbls"

definition get_load_table ::
  "ParsedLoadJobFileName \<Rightarrow> world \<Rightarrow> (error + TTableSchema) \<times> world" where
  "get_load_table fname w =
     (let tn = table_name fname in
      case map_of (tables w) tn of
        None \<Rightarrow> (Inl (LoadJobUnknownTableException tn fname), w)
      | Some table \<Rightarrow>
          (case write_disposition table of
             Some _ \<Rightarrow> (Inr table, w)
           | None \<Rightarrow>
               (case get_write_disposition (tables w) tn of
                  Inl (KeyError _) \<Rightarrow> (Inl (LoadJobUnknownTableException tn fname), w)
                | Inl e \<Rightarrow> (Inl e, w)
                | Inr w_d \<Rightarrow>
                    (let table' = table\<lparr>write_disposition := Some w_d\<rparr>
                     in (Inr table', w\<lparr>tables := set_table tn table' (tables w)\<rparr>)))))"

subsection \<open>LoadStorage\<close>

text \<open>
  Modelled from the spec: \<open>LoadStorage\<close> (dlt.common.storages) is not part of the sources
  at hand. The listings read the folders; each transition moves the file out of the
  folder the spec names, and does nothing when the file is not there.
  \<open>retry_job\<close> increments the retry count of the file name. \<open>fail_job\<close> and
  \<open>complete_job\<close> return the final location of the file.
  \<open>complete_load_package\<close> refuses to archive a package that still has new or started
  jobs unless it is aborted.
\<close>

definition list_new_jobs :: "world \<Rightarrow> ParsedLoadJobFileName list" where
  "list_new_jobs w = map fst (filter (\<lambda>(f, s). s = new_jobs) (jobs w))"

definition list_started_jobs :: "world \<Rightarrow> ParsedLoadJobFileName list" where
  "list_started_jobs w = map fst (filter (\<lambda>(f, s). s = started_jobs) (jobs w))"

definition list_jobs_for_table ::
  "world \<Rightarrow> string \<Rightarrow> (ParsedLoadJobFileName \<times> TJobState) list" where
  "list_jobs_for_table w tn = filter (\<lambda>(f, s). table_name f = tn) (jobs w)"

definition move_job ::
  "ParsedLoadJobFileName \<Rightarrow> TJobState \<Rightarrow> ParsedLoadJobFileName \<Rightarrow> TJobState \<Rightarrow>
   (ParsedLoadJobFileName \<times> TJobState) list \<Rightarrow> (ParsedLoadJobFileName \<times> TJobState) list" where
  "move_job f src f' dst js =
     map (\<lambda>(g, s). if g = f \<and> s = src then (f', dst) else (g, s)) js"

definition start_job :: "ParsedLoadJobFileName \<Rightarrow> world \<Rightarrow> world" where
  "start_job f w =
     log [ev_start_job f] (w\<lparr>jobs := move_job f new_jobs f started_jobs (jobs w)\<rparr>)"

definition fail_job ::
  "ParsedLoadJobFileName \<Rightarrow> string \<Rightarrow> world \<Rightarrow> (ParsedLoadJobFileName \<times> TJobState) \<times> world" where
  "fail_job f message w =
     ((f, failed_jobs),
      log [ev_fail_job f message]
        (w\<lparr>jobs := move_job f started_jobs f failed_jobs (jobs w),
           failed_messages := failed_messages w @ [(f, message)]\<rparr>))"

definition retry_job :: "ParsedLoadJobFileName \<Rightarrow> world \<Rightarrow> world" where
  "retry_job f w =
     log [ev_retry_job f]
       (w\<lparr>jobs := move_job f started_jobs (f\<lparr>retry_count := Suc (retry_count f)\<rparr>) new_jobs
                    (jobs w)\<rparr>)"

definition complete_job ::
  "ParsedLoadJobFileName \<Rightarrow> world \<Rightarrow> (ParsedLoadJobFileName \<times> TJobState) \<times> world" where
  "complete_job f w =
     ((f, completed_jobs),
      log [ev_complete_job f] (w\<lparr>jobs := move_job f started_jobs f completed_jobs (jobs w)\<rparr>))"

definition add_new_job :: "ParsedLoadJobFileName \<Rightarrow> TJobState \<Rightarrow> world \<Rightarrow> world" where
  "add_new_job f folder w = log [ev_add_new_job f folder] (w\<lparr>jobs := jobs w @ [(f, folder)]\<rparr>)"

definition begin_schema_update :: "world \<Rightarrow> string list option" where
  "begin_schema_update w = schema_update w"

definition commit_schema_update :: "string list \<Rightarrow> world \<Rightarrow> world" where
  "commit_schema_update applied w =
     log [ev_commit_schema_update] (w\<lparr>schema_update := None, applied_update := Some applied\<rparr>)"

definition complete_load_package :: "bool \<Rightarrow> world \<Rightarrow> (error + unit) \<times> world" where
  "complete_load_package aborted w =
     (if \<not> aborted \<and> (list_new_jobs w \<noteq> [] \<or> list_started_jobs w \<noteq> [])
      then (Inl LoadPackageNotArchivable, w)
      else (Inr (), log [ev_complete_load_package aborted] (w\<lparr>archived := Some aborted\<rparr>)))"

subsection \<open>Load.w_spool_job and Load.spool_new_jobs\<close>

text \<open>The body of the \<open>try\<close> block of \<open>w_spool_job\<close>.\<close>

definition w_spool_job_try ::
  "Load \<Rightarrow> ParsedLoadJobFileName \<Rightarrow> world \<Rightarrow> (error + LoadJob) \<times> world" where
  "w_spool_job_try self file_path w =
     (if file_format file_path \<notin> set (supported_loader_file_formats self)
      then (Inl (LoadClientUnsupportedFileFormats (file_format file_path)
                   (supported_loader_file_formats self) file_path), w)
      else
        (case get_load_table file_path w of
           (Inl e, w1) \<Rightarrow> (Inl e, w1)
         | (Inr table, w1) \<Rightarrow>
             (case write_disposition table of
                None \<Rightarrow> (Inl (KeyError ''write_disposition''), w1)
              | Some w_d \<Rightarrow>
                  if w_d \<notin> set [''append'', ''replace'', ''merge'']
                  then (Inl (LoadClientUnsupportedWriteDisposition (table_name file_path) w_d
                               file_path), w1)
                  else (client_start_file_load (client self) table file_path,
                        log [ev_start_file_load file_path] w1))))"

definition w_spool_job ::
  "Load \<Rightarrow> ParsedLoadJobFileName \<Rightarrow> string \<Rightarrow> world \<Rightarrow> LoadJob option \<times> world" where
  "w_spool_job self file_path load_id w =
     (case w_spool_job_try self file_path w of
        (Inr job, w1) \<Rightarrow> (Some job, start_job (file_name job) w1)
      | (Inl e, w1) \<Rightarrow>
          if is_DestinationTerminalException e \<or> is_TerminalValueError e
          then (let job = EmptyLoadJob_from_file_path file_path failed
                            (pretty_format_exception e)
                in (Some job, start_job (file_name job) w1))
          else (None, w1))"

text \<open>\<open>pool.starmap\<close>: the files of the chunk, here one after the other.\<close>

fun starmap_w_spool_job ::
  "Load \<Rightarrow> ParsedLoadJobFileName list \<Rightarrow> string \<Rightarrow> world \<Rightarrow> LoadJob option list \<times> world" where
  "starmap_w_spool_job self [] load_id w = ([], w)"
| "starmap_w_spool_job self (f # fs) load_id w =
     (case w_spool_job self f load_id w of
        (job, w1) \<Rightarrow>
          (case starmap_w_spool_job self fs load_id w1 of
             (js, w2) \<Rightarrow> (job # js, w2)))"

definition spool_new_jobs :: "Load \<Rightarrow> string \<Rightarrow> world \<Rightarrow> (nat \<times> LoadJob list) \<times> world" where
  "spool_new_jobs self load_id w =
     (let load_files = take (workers (config self)) (list_new_jobs w);
          file_count = length load_files
      in if file_count = 0 then ((0, []), w)
         else (case starmap_w_spool_job self load_files load_id w of
                 (js, w1) \<Rightarrow> ((file_count, List.map_filter id js), w1)))"

subsection \<open>Load.retrieve_jobs\<close>

fun retrieve_jobs_loop ::
  "Load \<Rightarrow> ParsedLoadJobFileName list \<Rightarrow> LoadJob list \<Rightarrow> world \<Rightarrow>
   (error + LoadJob list) \<times> world" where
  "retrieve_jobs_loop self [] js w = (Inr js, w)"
| "retrieve_jobs_loop self (file_path # fs) js w =
     (let w1 = log [ev_restore_file_load file_path] w
      in case client_restore_file_load (client self) file_path of
           Inr job \<Rightarrow> retrieve_jobs_loop self fs (js @ [job]) w1
         | Inl e \<Rightarrow>
             if is_DestinationTerminalException e
             then retrieve_jobs_loop self fs
                    (js @ [EmptyLoadJob_from_file_path file_path failed
                             (pretty_format_exception e)]) w1
             else (Inl e, w1))"

definition inc_label :: "string \<Rightarrow> nat \<Rightarrow> (string \<Rightarrow> nat) \<Rightarrow> (string \<Rightarrow> nat)" where
  "inc_label l n m = m(l := m l + n)"

definition retrieve_jobs ::
  "Load \<Rightarrow> string \<Rightarrow> world \<Rightarrow> (error + nat \<times> LoadJob list) \<times> world" where
  "retrieve_jobs self load_id w =
     (let started = list_started_jobs w
      in if length started = 0 then (Inr (0, []), w)
         else
           (case retrieve_jobs_loop self started [] w of
              (Inl e, w1) \<Rightarrow> (Inl e, w1)
            | (Inr js, w1) \<Rightarrow>
                (Inr (length js, js),
                 w1\<lparr>job_gauge := inc_label ''retrieved'' 1 (job_gauge w1),
                    job_counter := inc_label ''retrieved'' 1 (job_counter w1)\<rparr>)))"

subsection \<open>Load.get_jobs_info\<close>

fun get_jobs_info_loop ::
  "ParsedLoadJobFileName list \<Rightarrow> string option \<Rightarrow> ParsedLoadJobFileName list \<Rightarrow> world \<Rightarrow>
   (error + ParsedLoadJobFileName list) \<times> world" where
  "get_jobs_info_loop [] disposition infos w = (Inr infos, w)"
| "get_jobs_info_loop (job_file # fs) disposition infos w =
     (if disposition = None \<or> disposition = Some []
      then get_jobs_info_loop fs disposition (infos @ [job_file]) w
      else
        (case get_load_table job_file w of
           (Inl e, w1) \<Rightarrow> (Inl e, w1)
         | (Inr table, w1) \<Rightarrow>
             if write_disposition table = disposition
             then get_jobs_info_loop fs disposition (infos @ [job_file]) w1
             else get_jobs_info_loop fs disposition infos w1))"

definition get_jobs_info ::
  "string \<Rightarrow> string option \<Rightarrow> world \<Rightarrow> (error + ParsedLoadJobFileName list) \<times> world" where
  "get_jobs_info load_id disposition w =
     get_jobs_info_loop (list_new_jobs w) disposition [] w"

subsection \<open>Load.create_merge_job and Load.create_followup_jobs\<close>

text \<open>A job of a table blocks the merge when its folder is neither \<open>failed_jobs\<close> nor
  \<open>completed_jobs\<close> and it is not the starting job.\<close>

definition blocks_merge :: "LoadJob \<Rightarrow> ParsedLoadJobFileName \<times> TJobState \<Rightarrow> bool" where
  "blocks_merge starting_job = (\<lambda>(f, s).
     s \<notin> set [failed_jobs, completed_jobs] \<and> job_id f \<noteq> job_id (file_name starting_job))"

text \<open>The loop over the child tables: \<open>None\<close> is the early \<open>return None\<close>.\<close>

fun table_chain_loop ::
  "TTableSchema list \<Rightarrow> LoadJob \<Rightarrow> world \<Rightarrow> TTableSchema list \<Rightarrow> TTableSchema list option" where
  "table_chain_loop [] starting_job w table_chain = Some table_chain"
| "table_chain_loop (table # ts) starting_job w table_chain =
     (let table_jobs = list_jobs_for_table w (name table)
      in if table_jobs = [] then table_chain_loop ts starting_job w table_chain
         else if list_ex (blocks_merge starting_job) table_jobs then None
         else table_chain_loop ts starting_job w (table_chain @ [table]))"

definition create_merge_job ::
  "Load \<Rightarrow> string \<Rightarrow> TTableSchema \<Rightarrow> LoadJob \<Rightarrow> world \<Rightarrow> (error + LoadJob option) \<times> world" where
  "create_merge_job self load_id top_merged_table starting_job w =
     (case get_child_tables (tables w) (name top_merged_table) of
        Inl e \<Rightarrow> (Inl e, w)
      | Inr children \<Rightarrow>
          (case table_chain_loop children starting_job w [] of
             None \<Rightarrow> (Inr None, w)
           | Some table_chain \<Rightarrow>
               if length table_chain > 0
               then (Inr (Some (client_create_merge_job (client self) table_chain)),
                     log [ev_create_merge_job (map name table_chain)] w)
               else (Inl AssertionError, w)))"

definition create_followup_jobs ::
  "Load \<Rightarrow> string \<Rightarrow> TLoadJobState \<Rightarrow> LoadJob \<Rightarrow> world \<Rightarrow> (error + LoadJob list) \<times> world" where
  "create_followup_jobs self load_id st starting_job w =
     (if followup starting_job then
        if st = completed then
          (case get_load_table (file_name starting_job) w of
             (Inl e, w1) \<Rightarrow> (Inl e, w1)
           | (Inr table, w1) \<Rightarrow>
               (case get_top_level_table (tables w1) (name table) of
                  Inl e \<Rightarrow> (Inl e, w1)
                | Inr top_merged_table \<Rightarrow>
                    (case write_disposition top_merged_table of
                       None \<Rightarrow> (Inl (KeyError ''write_disposition''), w1)
                     | Some w_d \<Rightarrow>
                         if w_d = ''merge'' then
                           (case create_merge_job self load_id top_merged_table starting_job w1 of
                              (Inl e, w2) \<Rightarrow> (Inl e, w2)
                            | (Inr None, w2) \<Rightarrow> (Inr [], w2)
                            | (Inr (Some job), w2) \<Rightarrow> (Inr [job], w2))
                         else (Inr [], w1))))
        else (Inr [], w)
      else (Inr [], w))"

subsection \<open>Load.complete_jobs\<close>

text \<open>The metrics of a terminal transition: gauge and counter of the state, and the
  elapsed time of the final location.\<close>

definition state_label :: "TLoadJobState \<Rightarrow> string" where
  "state_label st =
     (case st of running \<Rightarrow> ''running'' | failed \<Rightarrow> ''failed''
               | retry \<Rightarrow> ''retry'' | completed \<Rightarrow> ''completed'')"

definition count_terminal ::
  "TLoadJobState \<Rightarrow> ParsedLoadJobFileName \<times> TJobState \<Rightarrow> world \<Rightarrow> world" where
  "count_terminal st final_location w =
     w\<lparr>job_gauge := inc_label (state_label st) 1 (job_gauge w),
       job_counter := inc_label (state_label st) 1 (job_counter w),
       job_wait_summary := job_wait_summary w @ [final_location]\<rparr>"

text \<open>The loop over the followup jobs of one completed job.\<close>

fun add_followup_jobs ::
  "LoadJob list \<Rightarrow> LoadJob list \<Rightarrow> world \<Rightarrow> LoadJob list \<times> world" where
  "add_followup_jobs [] remaining_jobs w = (remaining_jobs, w)"
| "add_followup_jobs (followup_job # fjs) remaining_jobs w =
     (let folder = (if state followup_job = running then new_jobs else started_jobs);
          w1 = add_new_job (file_name followup_job) folder w
      in if \<not> state followup_job = running
         then add_followup_jobs fjs (remaining_jobs @ [followup_job]) w1
         else add_followup_jobs fjs remaining_jobs w1)"

text \<open>The loop over the jobs; a running job is kept as the handle of the next pass.\<close>

fun complete_jobs_loop ::
  "Load \<Rightarrow> string \<Rightarrow> LoadJob list \<Rightarrow> LoadJob list \<Rightarrow> world \<Rightarrow>
   (error + LoadJob list) \<times> world" where
  "complete_jobs_loop self load_id [] remaining_jobs w = (Inr remaining_jobs, w)"
| "complete_jobs_loop self load_id (job # js) remaining_jobs w =
     (case state job of
        running \<Rightarrow> complete_jobs_loop self load_id js (remaining_jobs @ [next_poll job]) w
      | failed \<Rightarrow>
          (case fail_job (file_name job) (exception job) w of
             (final_location, w1) \<Rightarrow>
               if raise_on_failed_jobs (config self)
               then (Inl (LoadClientJobFailed load_id (job_id (file_name job)) (exception job)),
                     w1)
               else complete_jobs_loop self load_id js remaining_jobs
                      (count_terminal failed final_location w1))
      | retry \<Rightarrow> complete_jobs_loop self load_id js remaining_jobs (retry_job (file_name job) w)
      | completed \<Rightarrow>
          (case create_followup_jobs self load_id completed job w of
             (Inl e, w1) \<Rightarrow> (Inl e, w1)
           | (Inr followup_jobs, w1) \<Rightarrow>
               (case add_followup_jobs followup_jobs remaining_jobs w1 of
                  (remaining_jobs', w2) \<Rightarrow>
                    (case complete_job (file_name job) w2 of
                       (final_location, w3) \<Rightarrow>
                         complete_jobs_loop self load_id js remaining_jobs'
                           (count_terminal completed final_location w3)))))"

definition complete_jobs ::
  "Load \<Rightarrow> string \<Rightarrow> LoadJob list \<Rightarrow> world \<Rightarrow> (error + LoadJob list) \<times> world" where
  "complete_jobs self load_id js w = complete_jobs_loop self load_id js [] w"

subsection \<open>Load.complete_package\<close>

definition complete_package :: "Load \<Rightarrow> string \<Rightarrow> bool \<Rightarrow> world \<Rightarrow> (error + unit) \<times> world" where
  "complete_package self load_id aborted w =
     (let w1 = (if \<not> aborted then log [ev_complete_load load_id] w else w)
      in case complete_load_package aborted w1 of
           (Inl e, w2) \<Rightarrow> (Inl e, w2)
         | (Inr u, w2) \<Rightarrow>
             (Inr (),
              w2\<lparr>load_counter := Suc (load_counter w2),
                 processed_load_ids := processed_load_ids w2 @ [load_id]\<rparr>))"

subsection \<open>Load.load_single_package\<close>

text \<open>
  Modelled from the spec: \<open>schema.dlt_tables()\<close> gives the framework-internal tables of the
  schema, here the tables whose name starts with \<open>_dlt\<close>.
\<close>

definition dlt_tables :: "world \<Rightarrow> TTableSchema list" where
  "dlt_tables w = filter (\<lambda>t. take 4 (name t) = ''_dlt'') (map snd (tables w))"

text \<open>The schema update at the head of \<open>load_single_package\<close>, done when
  \<open>begin_schema_update\<close> returns an expected update.\<close>

definition update_schema :: "Load \<Rightarrow> string \<Rightarrow> world \<Rightarrow> (error + unit) \<times> world" where
  "update_schema self load_id w =
     (case begin_schema_update w of
        None \<Rightarrow> (Inr (), w)
      | Some expected_update \<Rightarrow>
          (let w1 = log [ev_initialize_storage False []] w
           in case get_jobs_info load_id None w1 of
                (Inl e, w2) \<Rightarrow> (Inl e, w2)
              | (Inr all_jobs, w2) \<Rightarrow>
                  (let all_tables = map table_name all_jobs;
                       dlt_names = map name (dlt_tables w2);
                       applied = client_update_storage_schema (client self) False
                                   (set (all_tables @ dlt_names)) expected_update;
                       w3 = log [ev_update_storage_schema False (all_tables @ dlt_names)] w2
                   in case get_jobs_info load_id (Some ''merge'') w3 of
                        (Inl e, w4) \<Rightarrow> (Inl e, w4)
                      | (Inr merge_jobs, w4) \<Rightarrow>
                          (let merge_tables = map table_name merge_jobs;
                               w5 = (if merge_jobs \<noteq> []
                                     then log [ev_initialize_storage True [],
                                               ev_update_storage_schema True
                                                 (merge_tables @ dlt_names),
                                               ev_initialize_storage True merge_tables] w4
                                     else w4)
                           in (Inr (), commit_schema_update applied w5)))))"

text \<open>Lines 289 to 301: retrieve the started jobs, and spool new ones when there are
  none.\<close>

definition retrieve_or_spool ::
  "Load \<Rightarrow> string \<Rightarrow> world \<Rightarrow> (error + nat \<times> LoadJob list) \<times> world" where
  "retrieve_or_spool self load_id w =
     (case retrieve_jobs self load_id w of
        (Inl e, w1) \<Rightarrow> (Inl e, w1)
      | (Inr (jobs_count, js), w1) \<Rightarrow>
          if js = [] then
            (case spool_new_jobs self load_id w1 of
               ((jobs_count', js'), w2) \<Rightarrow>
                 if jobs_count' > 0
                 then (Inr (jobs_count', js'),
                       w2\<lparr>job_gauge := inc_label ''running'' (length js') (\<lambda>l. 0),
                          job_counter := inc_label ''running'' (length js') (job_counter w2)\<rparr>)
                 else (Inr (jobs_count', js'), w2))
          else (Inr (jobs_count, js), w1))"

text \<open>
  The \<open>while True\<close> loop. A job may stay \<open>running\<close> for ever, so the loop takes fuel, one
  unit per pass; \<open>None\<close> says that the fuel did not suffice.
\<close>

fun poll_loop ::
  "nat \<Rightarrow> Load \<Rightarrow> string \<Rightarrow> LoadJob list \<Rightarrow> world \<Rightarrow> ((error + unit) \<times> world) option" where
  "poll_loop 0 self load_id js w = None"
| "poll_loop (Suc n) self load_id js w =
     (case complete_jobs self load_id js w of
        (Inl e, w1) \<Rightarrow>
          if is_LoadClientJobFailed e
          then (case complete_package self load_id True w1 of
                  (Inl e', w2) \<Rightarrow> Some (Inl e', w2)
                | (Inr u, w2) \<Rightarrow> Some (Inl e, w2))
          else Some (Inl e, w1)
      | (Inr remaining_jobs, w1) \<Rightarrow>
          if length remaining_jobs = 0 then Some (Inr (), w1)
          else poll_loop n self load_id remaining_jobs w1)"

definition load_single_package ::
  "nat \<Rightarrow> Load \<Rightarrow> string \<Rightarrow> world \<Rightarrow> ((error + unit) \<times> world) option" where
  "load_single_package fuel self load_id w =
     (case update_schema self load_id w of
        (Inl e, w1) \<Rightarrow> Some (Inl e, w1)
      | (Inr u, w1) \<Rightarrow>
          (case retrieve_or_spool self load_id w1 of
             (Inl e, w2) \<Rightarrow> Some (Inl e, w2)
           | (Inr (jobs_count, js), w2) \<Rightarrow>
               if jobs_count = 0 then Some (complete_package self load_id False w2)
               else poll_loop fuel self load_id js w2))"

subsection \<open>A package used to run the definitions\<close>

text \<open>A schema with the merge table \<open>orders\<close> and its child \<open>orders__items\<close>, which has no
  write disposition of its own, and one job file for each.\<close>

definition orders_table :: TTableSchema where
  "orders_table = \<lparr>name = ''orders'', write_disposition = Some ''merge'', parent = None\<rparr>"

definition orders_items_table :: TTableSchema where
  "orders_items_table =
     \<lparr>name = ''orders__items'', write_disposition = None, parent = Some ''orders''\<rparr>"

definition example_tables :: TSchemaTables where
  "example_tables = [(''orders'', orders_table), (''orders__items'', orders_items_table)]"

definition orders_file :: ParsedLoadJobFileName where
  "orders_file = \<lparr>table_name = ''orders'', file_id = ''a1'', retry_count = 0,
                   file_format = ''jsonl''\<rparr>"

definition orders_items_file :: ParsedLoadJobFileName where
  "orders_items_file = \<lparr>table_name = ''orders__items'', file_id = ''b2'', retry_count = 0,
                         file_format = ''jsonl''\<rparr>"

definition example_world :: world where
  "example_world =
     \<lparr>tables = example_tables,
      jobs = [(orders_file, new_jobs), (orders_items_file, new_jobs)],
      failed_messages = [], schema_update = None, applied_update = None, archived = None,
      trace = [], job_gauge = (\<lambda>l. 0), job_counter = (\<lambda>l. 0), job_wait_summary = [],
      load_counter = 0, processed_load_ids = []\<rparr>"

lemmas example_defs = example_world_def example_tables_def orders_table_def
  orders_items_table_def orders_file_def orders_items_file_def

subsection \<open>The resolved write disposition, as the spec words it\<close>

text \<open>
  The resolved write disposition of a table is its own write disposition when it has one,
  and the resolved write disposition of its parent table when it has none.
\<close>

inductive resolved_write_disposition :: "TSchemaTables \<Rightarrow> string \<Rightarrow> string \<Rightarrow> bool" where
  own: "map_of tbls tn = Some t \<Longrightarrow> write_disposition t = Some d \<Longrightarrow>
        resolved_write_disposition tbls tn d"
| inherited: "map_of tbls tn = Some t \<Longrightarrow> write_disposition t = None \<Longrightarrow>
        parent t = Some p \<Longrightarrow> resolved_write_disposition tbls p d \<Longrightarrow>
        resolved_write_disposition tbls tn d"

subsection \<open>Destinations used to run the definitions\<close>

text \<open>A job of the destination for a file, in the given state.\<close>

definition client_job :: "TLoadJobState \<Rightarrow> ParsedLoadJobFileName \<Rightarrow> LoadJob" where
  "client_job st f =
     \<lparr>file_name = f, state = st, later_states = [], exception = [], followup = True\<rparr>"

definition merge_file :: ParsedLoadJobFileName where
  "merge_file = \<lparr>table_name = ''orders'', file_id = ''merge'', retry_count = 0,
                  file_format = ''sql''\<rparr>"

text \<open>A destination that completes every load at once, and whose merge job is completed
  when it is created.\<close>

definition example_client :: JobClient where
  "example_client =
     \<lparr>client_start_file_load = (\<lambda>table f. Inr (client_job completed f)),
      client_restore_file_load = (\<lambda>f. Inr (client_job completed f)),
      client_create_merge_job = (\<lambda>chain. (client_job completed merge_file)\<lparr>followup := False\<rparr>),
      client_update_storage_schema = (\<lambda>staging only_tables expected. expected)\<rparr>"

definition example_load :: Load where
  "example_load =
     \<lparr>config = \<lparr>workers = 4, raise_on_failed_jobs = False\<rparr>,
      supported_loader_file_formats = [''jsonl''],
      client = example_client\<rparr>"

text \<open>A destination whose \<open>start_file_load\<close> and \<open>restore_file_load\<close> raise the given
  exception.\<close>

definition failing_load :: "error \<Rightarrow> Load" where
  "failing_load e =
     example_load\<lparr>client := example_client\<lparr>client_start_file_load := (\<lambda>table f. Inl e),
                                            client_restore_file_load := (\<lambda>f. Inl e)\<rparr>\<rparr>"

lemmas example_load_defs = example_load_def example_client_def client_job_def merge_file_def
  failing_load_def

text \<open>The package after both files were started and the file of the child table was
  completed, and a destination whose merge job runs asynchronously.\<close>

definition merge_ready_world :: world where
  "merge_ready_world =
     example_world\<lparr>jobs := [(orders_file, started_jobs), (orders_items_file, completed_jobs)]\<rparr>"

definition async_merge_load :: Load where
  "async_merge_load =
     example_load\<lparr>client := example_client
        \<lparr>client_create_merge_job :=
           (\<lambda>chain. (client_job running merge_file)\<lparr>followup := False\<rparr>)\<rparr>\<rparr>"

text \<open>A loader that raises on failed jobs, and a job of the destination that failed with
  the message \<open>bad row\<close>.\<close>

definition raising_load :: Load where
  "raising_load = example_load\<lparr>config := \<lparr>workers = 4, raise_on_failed_jobs = True\<rparr>\<rparr>"

definition failed_orders_job :: LoadJob where
  "failed_orders_job = (client_job failed orders_file)\<lparr>exception := ''bad row''\<rparr>"

text \<open>A destination that finds the restored job of a started file failed with the message
  \<open>bad row\<close>, and raises on failed jobs.\<close>

definition restoring_failed_load :: Load where
  "restoring_failed_load =
     raising_load\<lparr>client := example_client
        \<lparr>client_restore_file_load :=
           (\<lambda>f. Inr ((client_job failed f)\<lparr>exception := ''bad row''\<rparr>))\<rparr>\<rparr>"

text \<open>The package while the file of the child table is still loading.\<close>

definition merge_waiting_world :: world where
  "merge_waiting_world =
     example_world\<lparr>jobs := [(orders_file, started_jobs), (orders_items_file, started_jobs)]\<rparr>"

text \<open>The package after all its jobs, the merge job included, were completed.\<close>

definition all_done_world :: world where
  "all_done_world =
     example_world\<lparr>jobs := [(orders_file, completed_jobs), (orders_items_file, completed_jobs),
                             (merge_file, completed_jobs)]\<rparr>"

text \<open>A loader with one worker: a run spools one file of the package.\<close>

definition single_worker_load :: Load where
  "single_worker_load = example_load\<lparr>config := \<lparr>workers = 1, raise_on_failed_jobs = False\<rparr>\<rparr>"

subsection \<open>A schema with cached write dispositions\<close>

text \<open>
  \<open>schema_cached T T'\<close>: the tables \<open>T'\<close> are the tables \<open>T\<close>, under the same names in the
  same order, but for tables without a write disposition on which their resolved write
  disposition has been stored.
\<close>

definition schema_cached :: "TSchemaTables \<Rightarrow> TSchemaTables \<Rightarrow> bool" where
  "schema_cached T T' \<longleftrightarrow>
     map fst T' = map fst T \<and>
     (\<forall>k. map_of T' k = map_of T k \<or>
          (\<exists>t d. map_of T k = Some t \<and> write_disposition t = None \<and>
                 resolved_write_disposition T k d \<and>
                 map_of T' k = Some (t\<lparr>write_disposition := Some d\<rparr>)))"

section \<open>Properties\<close>

subsection \<open>get_load_table and the schema\<close>

lemma map_fst_set_table: "map fst (set_table tn t tbls) = map fst tbls"
  by (induction tbls) (auto simp: set_table_def)

lemma map_of_set_table:
  "map_of (set_table tn t tbls) k =
     (if k = tn then (case map_of tbls k of None \<Rightarrow> None | Some _ \<Rightarrow> Some t) else map_of tbls k)"
  by (induction tbls) (auto simp: set_table_def)

text \<open>
  Claim C7, as stated: no call of \<open>get_load_table\<close> changes the tables of the schema.
  It fails: for the file of the child table \<open>orders__items\<close>, which has no write
  disposition of its own, the call stores the inherited disposition on the table of the
  schema.
\<close>

theorem get_load_table_mutates_schema:
  "tables (snd (get_load_table orders_items_file example_world)) \<noteq> tables example_world"
  by (simp add: get_load_table_def get_write_disposition_def set_table_def example_defs
      Let_def)

text \<open>What \<open>get_load_table\<close> does to the state, entry by entry.\<close>

lemma get_load_table_exact:
  assumes "get_load_table fname w = (r, w')"
  shows "w'\<lparr>tables := tables w\<rparr> = w \<and> map fst (tables w') = map fst (tables w) \<and>
         (\<forall>k. map_of (tables w') k =
            (case map_of (tables w) k of
               None \<Rightarrow> None
             | Some t \<Rightarrow>
                 if k = table_name fname \<and> write_disposition t = None
                 then (case get_write_disposition (tables w) k of
                         Inr d \<Rightarrow> Some (t\<lparr>write_disposition := Some d\<rparr>)
                       | Inl e \<Rightarrow> Some t)
                 else Some t))"
proof -
  let ?tn = "table_name fname"
  show ?thesis
  proof (cases "map_of (tables w) ?tn")
    case None
    with assms show ?thesis
      by (auto simp: get_load_table_def Let_def split: option.splits)
  next
    case (Some t0)
    note t0 = this
    show ?thesis
    proof (cases "write_disposition t0")
      case (Some d)
      with t0 assms show ?thesis
        by (auto simp: get_load_table_def Let_def split: option.splits)
    next
      case None
      show ?thesis
      proof (cases "get_write_disposition (tables w) ?tn")
        case (Inl e)
        with None t0 assms have "w' = w"
          by (cases e) (auto simp: get_load_table_def Let_def)
        with Inl None t0 show ?thesis
          by (auto split: option.splits)
      next
        case (Inr d)
        with None t0 assms
        have w': "w' = w\<lparr>tables := set_table ?tn (t0\<lparr>write_disposition := Some d\<rparr>) (tables w)\<rparr>"
          by (auto simp: get_load_table_def Let_def)
        with Inr None t0 show ?thesis
          by (auto simp: map_fst_set_table map_of_set_table split: option.splits)
      qed
    qed
  qed
qed

subsection \<open>get_jobs_info filters on the resolved write disposition\<close>

lemma get_write_disposition_rec_resolved:
  "get_write_disposition_rec n tbls tn = Inr d \<Longrightarrow> resolved_write_disposition tbls tn d"
proof (induction n arbitrary: tn)
  case 0
  then show ?case by simp
next
  case (Suc n)
  show ?case
  proof (cases "map_of tbls tn")
    case None
    with Suc.prems show ?thesis by simp
  next
    case (Some t)
    note t = this
    show ?thesis
    proof (cases "write_disposition t")
      case (Some w_d)
      with t Suc.prems have "w_d = d" by simp
      with t Some show ?thesis by (blast intro: resolved_write_disposition.own)
    next
      case None
      note wd = this
      show ?thesis
      proof (cases "parent t")
        case None
        with t wd Suc.prems show ?thesis by simp
      next
        case (Some p)
        with t wd Suc.prems have "get_write_disposition_rec n tbls p = Inr d" by simp
        then have "resolved_write_disposition tbls p d" by (rule Suc.IH)
        with t wd Some show ?thesis by (rule resolved_write_disposition.inherited)
      qed
    qed
  qed
qed


lemma resolved_write_disposition_unique:
  "resolved_write_disposition tbls tn d \<Longrightarrow> resolved_write_disposition tbls tn d' \<Longrightarrow> d = d'"
proof (induction arbitrary: d' rule: resolved_write_disposition.induct)
  case (own tbls tn t d)
  from own.prems show ?case
  proof (cases rule: resolved_write_disposition.cases)
    case (own t')
    with \<open>map_of tbls tn = Some t\<close> \<open>write_disposition t = Some d\<close> show ?thesis by simp
  next
    case (inherited t' p)
    with \<open>map_of tbls tn = Some t\<close> \<open>write_disposition t = Some d\<close> show ?thesis by simp
  qed
next
  case (inherited tbls tn t p d)
  from inherited.prems show ?case
  proof (cases rule: resolved_write_disposition.cases)
    case (own t')
    with inherited.hyps(1,2) show ?thesis by simp
  next
    case inh: (inherited t' p')
    with inherited.hyps(1,3) have "p' = p" by simp
    with inh have "resolved_write_disposition tbls p d'" by simp
    then show ?thesis by (rule inherited.IH)
  qed
qed




lemma get_load_table_cases:
  assumes "get_load_table fname w = (r, w')"
  obtains (unchanged) "w' = w" "\<forall>table. r = Inr table \<longrightarrow>
              map_of (tables w) (table_name fname) = Some table \<and> write_disposition table \<noteq> None"
  | (stored) t0 d where "map_of (tables w) (table_name fname) = Some t0"
      "write_disposition t0 = None"
      "get_write_disposition (tables w) (table_name fname) = Inr d"
      "r = Inr (t0\<lparr>write_disposition := Some d\<rparr>)"
      "w' = w\<lparr>tables := set_table (table_name fname) (t0\<lparr>write_disposition := Some d\<rparr>) (tables w)\<rparr>"
proof (cases "map_of (tables w) (table_name fname)")
  case None
  with assms have "w' = w" "\<forall>table. r \<noteq> Inr table"
    by (auto simp: get_load_table_def Let_def)
  then show ?thesis using unchanged by simp
next
  case (Some t0)
  note t0 = this
  show ?thesis
  proof (cases "write_disposition t0")
    case (Some d)
    with t0 assms have "w' = w" "r = Inr t0"
      by (auto simp: get_load_table_def Let_def)
    with t0 Some show ?thesis using unchanged by simp
  next
    case None
    note wd = this
    show ?thesis
    proof (cases "get_write_disposition (tables w) (table_name fname)")
      case (Inl e)
      with wd t0 assms have "w' = w" "\<forall>table. r \<noteq> Inr table"
        by (cases e; auto simp: get_load_table_def Let_def)+
      then show ?thesis using unchanged by simp
    next
      case (Inr d)
      with wd t0 assms show ?thesis
        using stored by (auto simp: get_load_table_def Let_def)
    qed
  qed
qed






subsection \<open>Failures of the spool worker\<close>

lemma get_load_table_jobs:
  assumes "get_load_table fname w = (r, w')"
  shows "jobs w' = jobs w \<and> trace w' = trace w"
  using assms by (cases rule: get_load_table_cases) auto

lemma jobs_start_job [simp]:
  "jobs (start_job f w) = move_job f new_jobs f started_jobs (jobs w)"
  by (simp add: start_job_def log_def)

lemma jobs_log [simp]: "jobs (log es w) = jobs w"
  by (simp add: log_def)

lemma trace_log [simp]: "trace (log es w) = trace w @ es"
  by (simp add: log_def)

text \<open>
  Claim C4: what \<open>w_spool_job\<close> does when the spooling of a file fails. An unsupported
  file format, an unsupported write disposition, and a terminal exception of
  \<open>get_load_table\<close> or of \<open>start_file_load\<close> give an \<open>EmptyLoadJob\<close> for the file in state
  \<open>failed\<close> that carries the exception text, and the file is moved from \<open>new_jobs\<close> to
  \<open>started_jobs\<close>. Every other exception gives no job, and the folders are as before.
\<close>

theorem w_spool_job_failure:
  assumes "w_spool_job self file_path load_id w = (job, w')"
  shows
    "(file_format file_path \<notin> set (supported_loader_file_formats self) \<longrightarrow>
        job = Some (EmptyLoadJob_from_file_path file_path failed
                 (pretty_format_exception
                    (LoadClientUnsupportedFileFormats (file_format file_path)
                       (supported_loader_file_formats self) file_path))) \<and>
        jobs w' = move_job file_path new_jobs file_path started_jobs (jobs w)) \<and>
     (\<forall>table w1 d.
        file_format file_path \<in> set (supported_loader_file_formats self) \<and>
        get_load_table file_path w = (Inr table, w1) \<and> write_disposition table = Some d \<and>
        d \<notin> set [''append'', ''replace'', ''merge''] \<longrightarrow>
        job = Some (EmptyLoadJob_from_file_path file_path failed
                 (pretty_format_exception
                    (LoadClientUnsupportedWriteDisposition (table_name file_path) d
                       file_path))) \<and>
        jobs w' = move_job file_path new_jobs file_path started_jobs (jobs w)) \<and>
     (\<forall>table w1 d e.
        file_format file_path \<in> set (supported_loader_file_formats self) \<and>
        get_load_table file_path w = (Inr table, w1) \<and> write_disposition table = Some d \<and>
        d \<in> set [''append'', ''replace'', ''merge''] \<and>
        client_start_file_load (client self) table file_path = Inl e \<longrightarrow>
        (if is_DestinationTerminalException e \<or> is_TerminalValueError e
         then job = Some (EmptyLoadJob_from_file_path file_path failed
                      (pretty_format_exception e)) \<and>
              jobs w' = move_job file_path new_jobs file_path started_jobs (jobs w)
         else job = None \<and> jobs w' = jobs w \<and>
              trace w' = trace w @ [ev_start_file_load file_path])) \<and>
     (\<forall>w1 e.
        file_format file_path \<in> set (supported_loader_file_formats self) \<and>
        get_load_table file_path w = (Inl e, w1) \<longrightarrow>
        (if is_DestinationTerminalException e \<or> is_TerminalValueError e
         then job = Some (EmptyLoadJob_from_file_path file_path failed
                      (pretty_format_exception e)) \<and>
              jobs w' = move_job file_path new_jobs file_path started_jobs (jobs w)
         else job = None \<and> jobs w' = jobs w \<and> trace w' = trace w))"
proof (intro conjI allI impI)
  assume "file_format file_path \<notin> set (supported_loader_file_formats self)"
  with assms
  show "job = Some (EmptyLoadJob_from_file_path file_path failed
                 (pretty_format_exception
                    (LoadClientUnsupportedFileFormats (file_format file_path)
                       (supported_loader_file_formats self) file_path)))"
    and "jobs w' = move_job file_path new_jobs file_path started_jobs (jobs w)"
    by (auto simp: w_spool_job_def w_spool_job_try_def EmptyLoadJob_from_file_path_def Let_def)
next
  fix table w1 d
  assume h: "file_format file_path \<in> set (supported_loader_file_formats self) \<and>
        get_load_table file_path w = (Inr table, w1) \<and> write_disposition table = Some d \<and>
        d \<notin> set [''append'', ''replace'', ''merge'']"
  then have j: "jobs w1 = jobs w" using get_load_table_jobs by blast
  from h have
    tr: "w_spool_job_try self file_path w =
       (Inl (LoadClientUnsupportedWriteDisposition (table_name file_path) d file_path), w1)"
    by (simp add: w_spool_job_try_def)
  with assms j
  show "job = Some (EmptyLoadJob_from_file_path file_path failed
                 (pretty_format_exception
                    (LoadClientUnsupportedWriteDisposition (table_name file_path) d
                       file_path)))"
    and "jobs w' = move_job file_path new_jobs file_path started_jobs (jobs w)"
    by (auto simp: w_spool_job_def EmptyLoadJob_from_file_path_def Let_def)
next
  fix table w1 d e
  assume h: "file_format file_path \<in> set (supported_loader_file_formats self) \<and>
        get_load_table file_path w = (Inr table, w1) \<and> write_disposition table = Some d \<and>
        d \<in> set [''append'', ''replace'', ''merge''] \<and>
        client_start_file_load (client self) table file_path = Inl e"
  then have j: "jobs w1 = jobs w" "trace w1 = trace w" using get_load_table_jobs by blast+
  from h have
    tr: "w_spool_job_try self file_path w = (Inl e, log [ev_start_file_load file_path] w1)"
    by (simp add: w_spool_job_try_def)
  with assms j
  show "if is_DestinationTerminalException e \<or> is_TerminalValueError e
         then job = Some (EmptyLoadJob_from_file_path file_path failed
                      (pretty_format_exception e)) \<and>
              jobs w' = move_job file_path new_jobs file_path started_jobs (jobs w)
         else job = None \<and> jobs w' = jobs w \<and>
              trace w' = trace w @ [ev_start_file_load file_path]"
    by (auto simp: w_spool_job_def EmptyLoadJob_from_file_path_def Let_def)
next
  fix w1 e
  assume h: "file_format file_path \<in> set (supported_loader_file_formats self) \<and>
        get_load_table file_path w = (Inl e, w1)"
  then have j: "jobs w1 = jobs w" "trace w1 = trace w" using get_load_table_jobs by blast+
  from h have tr: "w_spool_job_try self file_path w = (Inl e, w1)"
    by (simp add: w_spool_job_try_def)
  with assms j
  show "if is_DestinationTerminalException e \<or> is_TerminalValueError e
         then job = Some (EmptyLoadJob_from_file_path file_path failed
                      (pretty_format_exception e)) \<and>
              jobs w' = move_job file_path new_jobs file_path started_jobs (jobs w)
         else job = None \<and> jobs w' = jobs w \<and> trace w' = trace w"
    by (auto simp: w_spool_job_def EmptyLoadJob_from_file_path_def Let_def)
qed

theorem w_spool_job_failure_witness:
  "fst (w_spool_job (failing_load (DestinationTransientException ''timeout'')) orders_file
          ''1700000000'' example_world) = None \<and>
   jobs (snd (w_spool_job (failing_load (DestinationTransientException ''timeout''))
          orders_file ''1700000000'' example_world)) = jobs example_world \<and>
   fst (w_spool_job (failing_load (DestinationTerminalException ''bad file'')) orders_file
          ''1700000000'' example_world) =
     Some (EmptyLoadJob_from_file_path orders_file failed ''bad file'') \<and>
   jobs (snd (w_spool_job (failing_load (DestinationTerminalException ''bad file''))
          orders_file ''1700000000'' example_world)) =
     [(orders_file, started_jobs), (orders_items_file, new_jobs)]"
proof -
  have glt: "get_load_table orders_file example_world = (Inr orders_table, example_world)"
    by (simp add: get_load_table_def example_defs Let_def)
  have wd: "write_disposition orders_table = Some ''merge''"
    by (simp add: orders_table_def)
  have fmt: "file_format orders_file \<in> set (supported_loader_file_formats (failing_load e))"
    for e by (simp add: example_defs example_load_defs)
  have start: "client_start_file_load (client (failing_load e)) orders_table orders_file = Inl e"
    for e by (simp add: example_load_defs)
  have mv: "move_job orders_file new_jobs orders_file started_jobs (jobs example_world) =
     [(orders_file, started_jobs), (orders_items_file, new_jobs)]"
    by (simp add: move_job_def example_defs)
  have c: "file_format orders_file \<in> set (supported_loader_file_formats (failing_load e)) \<and>
        get_load_table orders_file example_world = (Inr orders_table, example_world) \<and>
        write_disposition orders_table = Some ''merge'' \<and>
        ''merge'' \<in> set [''append'', ''replace'', ''merge''] \<and>
        client_start_file_load (client (failing_load e)) orders_table orders_file = Inl e"
    for e using glt wd fmt start by simp
  note th = w_spool_job_failure [OF prod.collapse [symmetric], THEN conjunct2,
      THEN conjunct2, THEN conjunct1, rule_format]
  from th [OF c [of "DestinationTransientException ''timeout''"],
        where load_id = "''1700000000''"]
    th [OF c [of "DestinationTerminalException ''bad file''"],
        where load_id = "''1700000000''"]
    mv
  show ?thesis by simp
qed

subsection \<open>Completing jobs\<close>

lemma get_load_table_world:
  assumes "get_load_table fname w = (r, w')"
  shows "\<exists>T. w' = w\<lparr>tables := T\<rparr>"
  using assms
proof (cases rule: get_load_table_cases)
  case unchanged
  then have "w' = w\<lparr>tables := tables w\<rparr>" by simp
  then show ?thesis by blast
next
  case (stored t0 d)
  then show ?thesis by blast
qed

lemma create_merge_job_world:
  assumes "create_merge_job self load_id tp starting_job w = (r, w')"
  shows "\<exists>es. w' = log es w"
proof -
  have "w' = log [] w \<or> (\<exists>ns. w' = log [ev_create_merge_job ns] w)"
    using assms
    by (auto simp: create_merge_job_def log_def split: sum.splits option.splits if_splits)
  then show ?thesis by blast
qed

lemma create_followup_jobs_world:
  assumes "create_followup_jobs self load_id st starting_job w = (r, w')"
  shows "\<exists>T es. w' = log es (w\<lparr>tables := T\<rparr>)"
proof (cases "followup starting_job \<and> st = completed")
  case False
  with assms have "w' = log [] (w\<lparr>tables := tables w\<rparr>)"
    by (auto simp: create_followup_jobs_def log_def split: if_splits)
  then show ?thesis by blast
next
  case True
  obtain r1 w1 where glt: "get_load_table (file_name starting_job) w = (r1, w1)"
    by (cases "get_load_table (file_name starting_job) w")
  from get_load_table_world [OF glt] obtain T where w1: "w1 = w\<lparr>tables := T\<rparr>" by blast
  have step: "w' = log [] w1 \<or>
     (\<exists>tp r2. create_merge_job self load_id tp starting_job w1 = (r2, w'))"
    using assms True glt
    by (auto simp: create_followup_jobs_def log_def
        split: sum.splits option.splits if_splits prod.splits)
  then show ?thesis
  proof
    assume "w' = log [] w1"
    with w1 show ?thesis by blast
  next
    assume "\<exists>tp r2. create_merge_job self load_id tp starting_job w1 = (r2, w')"
    then obtain tp r2 where "create_merge_job self load_id tp starting_job w1 = (r2, w')"
      by blast
    from create_merge_job_world [OF this] w1 show ?thesis by blast
  qed
qed

lemma add_followup_jobs_result:
  "add_followup_jobs fjs remaining w =
     (remaining @ filter (\<lambda>fj. state fj \<noteq> running) fjs,
      w\<lparr>jobs := jobs w @ map (\<lambda>fj. (file_name fj, (if state fj = running then new_jobs else started_jobs))) fjs,
        trace := trace w @
          map (\<lambda>fj. ev_add_new_job (file_name fj) ((if state fj = running then new_jobs else started_jobs))) fjs\<rparr>)"
proof (induction fjs arbitrary: remaining w)
  case Nil
  then show ?case by simp
next
  case (Cons fj fjs)
  show ?case
    by (cases "state fj = running")
      (simp_all add: Cons.IH Let_def add_new_job_def log_def)
qed

text \<open>
  Claim C5: when a completed job is processed and its followup jobs are \<open>fjs\<close>, every
  followup job whose state is \<open>running\<close> is added to \<open>new_jobs\<close> and is not put on the
  remaining jobs, every other one is added to \<open>started_jobs\<close> and appended to the remaining
  jobs of this pass; the trace shows all \<open>add_new_job\<close> calls before the \<open>complete_job\<close> of
  the completing job. The loop then goes on with the jobs that are left.
\<close>

theorem complete_jobs_places_followups:
  assumes "state job = completed"
    and "create_followup_jobs self load_id completed job w = (Inr fjs, w1)"
  shows "\<exists>w2. complete_jobs_loop self load_id (job # js) remaining w =
              complete_jobs_loop self load_id js
                (remaining @ filter (\<lambda>fj. state fj \<noteq> running) fjs) w2 \<and>
            jobs w2 =
              move_job (file_name job) started_jobs (file_name job) completed_jobs
                (jobs w1 @
                 map (\<lambda>fj. (file_name fj,
                            if state fj = running then new_jobs else started_jobs)) fjs) \<and>
            trace w2 =
              trace w1 @
              map (\<lambda>fj. ev_add_new_job (file_name fj)
                         (if state fj = running then new_jobs else started_jobs)) fjs @
              [ev_complete_job (file_name job)]"
proof -
  let ?w2 = "count_terminal completed (file_name job, completed_jobs)
               (snd (complete_job (file_name job)
                  (snd (add_followup_jobs fjs remaining w1))))"
  have "complete_jobs_loop self load_id (job # js) remaining w =
          complete_jobs_loop self load_id js
            (remaining @ filter (\<lambda>fj. state fj \<noteq> running) fjs) ?w2"
    using assms by (simp add: add_followup_jobs_result complete_job_def)
  moreover have "jobs ?w2 =
      move_job (file_name job) started_jobs (file_name job) completed_jobs
        (jobs w1 @
         map (\<lambda>fj. (file_name fj,
                    if state fj = running then new_jobs else started_jobs)) fjs)"
    by (simp add: add_followup_jobs_result complete_job_def count_terminal_def log_def)
  moreover have "trace ?w2 =
      trace w1 @
      map (\<lambda>fj. ev_add_new_job (file_name fj)
                 (if state fj = running then new_jobs else started_jobs)) fjs @
      [ev_complete_job (file_name job)]"
    by (simp add: add_followup_jobs_result complete_job_def count_terminal_def log_def)
  ultimately show ?thesis by blast
qed

lemma example_followups:
  "create_followup_jobs self load_id completed (client_job completed orders_file)
     merge_ready_world =
   (Inr [client_create_merge_job (client self) [orders_table, orders_items_table]],
    log [ev_create_merge_job [''orders'', ''orders__items'']] merge_ready_world)"
  by (simp add: create_followup_jobs_def create_merge_job_def get_load_table_def
      get_top_level_table_def get_child_tables_def list_jobs_for_table_def blocks_merge_def
      job_id_def Let_def merge_ready_world_def example_defs example_load_defs)


theorem complete_jobs_places_followups_witness:
  "complete_jobs_loop example_load ''1700000000'' [client_job completed orders_file] []
       merge_ready_world =
     (Inr [(client_job completed merge_file)\<lparr>followup := False\<rparr>],
      snd (complete_jobs_loop example_load ''1700000000'' [client_job completed orders_file] []
             merge_ready_world)) \<and>
   jobs (snd (complete_jobs_loop example_load ''1700000000''
                [client_job completed orders_file] [] merge_ready_world)) =
     [(orders_file, completed_jobs), (orders_items_file, completed_jobs),
      (merge_file, started_jobs)] \<and>
   fst (complete_jobs_loop async_merge_load ''1700000000'' [client_job completed orders_file]
          [] merge_ready_world) = Inr [] \<and>
   jobs (snd (complete_jobs_loop async_merge_load ''1700000000''
                [client_job completed orders_file] [] merge_ready_world)) =
     [(orders_file, completed_jobs), (orders_items_file, completed_jobs),
      (merge_file, new_jobs)] \<and>
   trace (snd (complete_jobs_loop async_merge_load ''1700000000''
                 [client_job completed orders_file] [] merge_ready_world)) =
     [ev_create_merge_job [''orders'', ''orders__items''],
      ev_add_new_job merge_file new_jobs, ev_complete_job orders_file]"
proof -
  have st: "state (client_job completed orders_file) = completed"
    by (simp add: client_job_def)
  have j1: "jobs (log [ev_create_merge_job [''orders'', ''orders__items'']] merge_ready_world)
      = [(orders_file, started_jobs), (orders_items_file, completed_jobs)]"
    by (simp add: log_def merge_ready_world_def)
  have t1: "trace (log [ev_create_merge_job [''orders'', ''orders__items'']] merge_ready_world)
      = [ev_create_merge_job [''orders'', ''orders__items'']]"
    by (simp add: log_def merge_ready_world_def example_world_def)
  have neq: "orders_file \<noteq> orders_items_file" "merge_file \<noteq> orders_file"
    by (simp_all add: example_defs merge_file_def)
  from complete_jobs_places_followups [OF st example_followups, of example_load
      "''1700000000''" "[]" "[]"]
    complete_jobs_places_followups [OF st example_followups, of async_merge_load
      "''1700000000''" "[]" "[]"]
    j1 t1 neq
  show ?thesis
    by (auto simp: example_load_defs async_merge_load_def move_job_def)
qed

subsection \<open>Failed jobs and the metrics\<close>

lemma complete_jobs_loop_append:
  "complete_jobs_loop self load_id (xs @ ys) remaining w =
     (case complete_jobs_loop self load_id xs remaining w of
        (Inl e, w') \<Rightarrow> (Inl e, w')
      | (Inr remaining', w') \<Rightarrow> complete_jobs_loop self load_id ys remaining' w')"
proof (induction xs arbitrary: remaining w)
  case Nil
  then show ?case by simp
next
  case (Cons x xs)
  show ?case
  proof (cases "state x")
    case running
    then show ?thesis by (simp add: Cons.IH)
  next
    case failed
    then show ?thesis by (simp add: Cons.IH split: prod.splits)
  next
    case retry
    then show ?thesis by (simp add: Cons.IH)
  next
    case completed
    then show ?thesis by (simp add: Cons.IH split: prod.splits sum.splits)
  qed
qed

lemma create_followup_jobs_metrics:
  assumes "create_followup_jobs self load_id st starting_job w = (r, w')"
  shows "jobs w' = jobs w \<and> job_gauge w' = job_gauge w \<and> job_counter w' = job_counter w \<and>
         job_wait_summary w' = job_wait_summary w \<and> failed_messages w' = failed_messages w \<and>
         archived w' = archived w"
proof -
  from create_followup_jobs_world [OF assms] obtain T es
    where "w' = log es (w\<lparr>tables := T\<rparr>)" by blast
  then show ?thesis by (simp add: log_def)
qed

text \<open>
  Claim C8, as stated: every job that \<open>complete_jobs\<close> moves to \<open>failed_jobs\<close> or
  \<open>completed_jobs\<close> has gauge and counter of its state incremented and its wait observed,
  whatever the configuration. It fails when \<open>raise_on_failed_jobs\<close> is set: the file of the
  failed job is moved to \<open>failed_jobs\<close>, and the metrics are as before.
\<close>

theorem failed_job_not_counted_when_raising:
  "jobs (snd (complete_jobs raising_load ''1700000000'' [failed_orders_job] merge_ready_world))
     = [(orders_file, failed_jobs), (orders_items_file, completed_jobs)] \<and>
   job_gauge (snd (complete_jobs raising_load ''1700000000'' [failed_orders_job]
      merge_ready_world)) ''failed'' = job_gauge merge_ready_world ''failed'' \<and>
   job_counter (snd (complete_jobs raising_load ''1700000000'' [failed_orders_job]
      merge_ready_world)) ''failed'' = job_counter merge_ready_world ''failed'' \<and>
   job_wait_summary (snd (complete_jobs raising_load ''1700000000'' [failed_orders_job]
      merge_ready_world)) = job_wait_summary merge_ready_world"
  by (simp add: complete_jobs_def fail_job_def log_def move_job_def raising_load_def
      failed_orders_job_def merge_ready_world_def example_defs example_load_defs)

text \<open>
  Claim C8, amended: a job that \<open>complete_jobs\<close> finds completed (and whose followup jobs
  could be computed), and a job it finds failed while \<open>raise_on_failed_jobs\<close> is not set,
  has the gauge and the counter of its state incremented by one and the elapsed time of
  its final location observed, before the loop goes on with the next job.
\<close>

theorem complete_jobs_counts_terminal:
  "(state job = failed \<and> \<not> raise_on_failed_jobs (config self) \<longrightarrow>
      (\<exists>w2. complete_jobs_loop self load_id (job # js) remaining w =
              complete_jobs_loop self load_id js remaining w2 \<and>
            jobs w2 = move_job (file_name job) started_jobs (file_name job) failed_jobs (jobs w) \<and>
            job_gauge w2 = inc_label ''failed'' 1 (job_gauge w) \<and>
            job_counter w2 = inc_label ''failed'' 1 (job_counter w) \<and>
            job_wait_summary w2 = job_wait_summary w @ [(file_name job, failed_jobs)])) \<and>
   (\<forall>fjs w1. state job = completed \<and>
      create_followup_jobs self load_id completed job w = (Inr fjs, w1) \<longrightarrow>
      (\<exists>w2. complete_jobs_loop self load_id (job # js) remaining w =
              complete_jobs_loop self load_id js
                (remaining @ filter (\<lambda>fj. state fj \<noteq> running) fjs) w2 \<and>
            job_gauge w2 = inc_label ''completed'' 1 (job_gauge w) \<and>
            job_counter w2 = inc_label ''completed'' 1 (job_counter w) \<and>
            job_wait_summary w2 = job_wait_summary w @ [(file_name job, completed_jobs)]))"
proof (intro conjI allI impI)
  assume h: "state job = failed \<and> \<not> raise_on_failed_jobs (config self)"
  let ?w2 = "count_terminal failed (file_name job, failed_jobs)
               (snd (fail_job (file_name job) (exception job) w))"
  have "complete_jobs_loop self load_id (job # js) remaining w =
          complete_jobs_loop self load_id js remaining ?w2"
    using h by (simp add: fail_job_def)
  moreover have "jobs ?w2 =
      move_job (file_name job) started_jobs (file_name job) failed_jobs (jobs w)"
    and "job_gauge ?w2 = inc_label ''failed'' 1 (job_gauge w)"
    and "job_counter ?w2 = inc_label ''failed'' 1 (job_counter w)"
    and "job_wait_summary ?w2 = job_wait_summary w @ [(file_name job, failed_jobs)]"
    by (simp_all add: count_terminal_def fail_job_def log_def state_label_def)
  ultimately show "\<exists>w2. complete_jobs_loop self load_id (job # js) remaining w =
              complete_jobs_loop self load_id js remaining w2 \<and>
            jobs w2 = move_job (file_name job) started_jobs (file_name job) failed_jobs (jobs w) \<and>
            job_gauge w2 = inc_label ''failed'' 1 (job_gauge w) \<and>
            job_counter w2 = inc_label ''failed'' 1 (job_counter w) \<and>
            job_wait_summary w2 = job_wait_summary w @ [(file_name job, failed_jobs)]"
    by blast
next
  fix fjs w1
  assume h: "state job = completed \<and>
      create_followup_jobs self load_id completed job w = (Inr fjs, w1)"
  then have m: "job_gauge w1 = job_gauge w" "job_counter w1 = job_counter w"
      "job_wait_summary w1 = job_wait_summary w"
    using create_followup_jobs_metrics by blast+
  let ?w2 = "count_terminal completed (file_name job, completed_jobs)
               (snd (complete_job (file_name job)
                  (snd (add_followup_jobs fjs remaining w1))))"
  have "complete_jobs_loop self load_id (job # js) remaining w =
          complete_jobs_loop self load_id js
            (remaining @ filter (\<lambda>fj. state fj \<noteq> running) fjs) ?w2"
    using h by (simp add: add_followup_jobs_result complete_job_def)
  moreover have "job_gauge ?w2 = inc_label ''completed'' 1 (job_gauge w)"
    and "job_counter ?w2 = inc_label ''completed'' 1 (job_counter w)"
    and "job_wait_summary ?w2 = job_wait_summary w @ [(file_name job, completed_jobs)]"
    using m
    by (simp_all add: count_terminal_def complete_job_def log_def state_label_def
        add_followup_jobs_result)
  ultimately show "\<exists>w2. complete_jobs_loop self load_id (job # js) remaining w =
              complete_jobs_loop self load_id js
                (remaining @ filter (\<lambda>fj. state fj \<noteq> running) fjs) w2 \<and>
            job_gauge w2 = inc_label ''completed'' 1 (job_gauge w) \<and>
            job_counter w2 = inc_label ''completed'' 1 (job_counter w) \<and>
            job_wait_summary w2 = job_wait_summary w @ [(file_name job, completed_jobs)]"
    by blast
qed

theorem complete_jobs_counts_terminal_witness:
  "job_gauge (snd (complete_jobs_loop example_load ''1700000000'' [failed_orders_job] []
      merge_ready_world)) ''failed'' = 1 \<and>
   job_wait_summary (snd (complete_jobs_loop example_load ''1700000000'' [failed_orders_job] []
      merge_ready_world)) = [(orders_file, failed_jobs)] \<and>
   job_counter (snd (complete_jobs_loop example_load ''1700000000''
      [client_job completed orders_file] [] merge_ready_world)) ''completed'' = 1 \<and>
   job_wait_summary (snd (complete_jobs_loop example_load ''1700000000''
      [client_job completed orders_file] [] merge_ready_world)) = [(orders_file, completed_jobs)]"
proof -
  have f: "state failed_orders_job = failed \<and> \<not> raise_on_failed_jobs (config example_load)"
    by (simp add: failed_orders_job_def example_load_defs)
  have c: "state (client_job completed orders_file) = completed \<and>
      create_followup_jobs example_load ''1700000000'' completed
        (client_job completed orders_file) merge_ready_world =
      (Inr [client_create_merge_job (client example_load) [orders_table, orders_items_table]],
       log [ev_create_merge_job [''orders'', ''orders__items'']] merge_ready_world)"
    by (simp add: example_followups) (simp add: client_job_def)
  have z: "job_gauge merge_ready_world = (\<lambda>l. 0)" "job_counter merge_ready_world = (\<lambda>l. 0)"
      "job_wait_summary merge_ready_world = []"
    by (simp_all add: merge_ready_world_def example_world_def)
  note th = complete_jobs_counts_terminal [of _ example_load "''1700000000''" "[]" "[]"
      merge_ready_world]
  from th [THEN conjunct1, rule_format, OF f]
    th [THEN conjunct2, rule_format, OF c]
    z
  show ?thesis
    by (auto simp: inc_label_def failed_orders_job_def client_job_def)
qed

subsection \<open>A failed job aborts the package when raise_on_failed_jobs is set\<close>

text \<open>
  Claim C3: with \<open>raise_on_failed_jobs\<close> set, a pass of the poll loop that reaches a job
  in state \<open>failed\<close> (the jobs before it were processed without exception) first moves the
  file to \<open>failed_jobs\<close> and stores the exception message, then raises
  \<open>LoadClientJobFailed\<close> with the load id and the job id of the file; the handler archives
  the package as aborted, without a call of \<open>complete_load\<close>, and the exception is the
  result of the loop, and so of \<open>load_single_package\<close>.
\<close>

theorem failed_job_aborts_package:
  assumes "raise_on_failed_jobs (config self)" and "state job = failed"
    and "complete_jobs self load_id pre w = (Inr remaining, w0)"
  shows "(\<exists>w2. poll_loop (Suc n) self load_id (pre @ job # post) w =
              Some (Inl (LoadClientJobFailed load_id (job_id (file_name job))
                           (exception job)), w2) \<and>
            jobs w2 =
              move_job (file_name job) started_jobs (file_name job) failed_jobs (jobs w0) \<and>
            failed_messages w2 = failed_messages w0 @ [(file_name job, exception job)] \<and>
            archived w2 = Some True \<and>
            trace w2 = trace w0 @ [ev_fail_job (file_name job) (exception job),
                                   ev_complete_load_package True]) \<and>
         (\<forall>w_in w_s u jobs_count.
            update_schema self load_id w_in = (Inr u, w_s) \<and>
            retrieve_or_spool self load_id w_s = (Inr (jobs_count, pre @ job # post), w) \<and>
            jobs_count \<noteq> 0 \<longrightarrow>
            load_single_package (Suc n) self load_id w_in =
              poll_loop (Suc n) self load_id (pre @ job # post) w)"
proof (intro conjI allI impI)
  let ?e = "LoadClientJobFailed load_id (job_id (file_name job)) (exception job)"
  let ?w1 = "snd (fail_job (file_name job) (exception job) w0)"
  let ?w2 = "snd (complete_package self load_id True ?w1)"
  have cj: "complete_jobs self load_id (pre @ job # post) w = (Inl ?e, ?w1)"
    using assms
    by (simp add: complete_jobs_def complete_jobs_loop_append split: prod.splits)
  have "poll_loop (Suc n) self load_id (pre @ job # post) w = Some (Inl ?e, ?w2)"
    using cj by (simp add: complete_package_def complete_load_package_def Let_def)
  moreover have "jobs ?w2 =
      move_job (file_name job) started_jobs (file_name job) failed_jobs (jobs w0)"
    and "failed_messages ?w2 = failed_messages w0 @ [(file_name job, exception job)]"
    and "archived ?w2 = Some True"
    and "trace ?w2 = trace w0 @ [ev_fail_job (file_name job) (exception job),
                                  ev_complete_load_package True]"
    by (simp_all add: complete_package_def complete_load_package_def fail_job_def log_def Let_def)
  ultimately show "\<exists>w2. poll_loop (Suc n) self load_id (pre @ job # post) w =
              Some (Inl ?e, w2) \<and>
            jobs w2 =
              move_job (file_name job) started_jobs (file_name job) failed_jobs (jobs w0) \<and>
            failed_messages w2 = failed_messages w0 @ [(file_name job, exception job)] \<and>
            archived w2 = Some True \<and>
            trace w2 = trace w0 @ [ev_fail_job (file_name job) (exception job),
                                   ev_complete_load_package True]"
    by blast
next
  fix w_in w_s u jobs_count
  assume "update_schema self load_id w_in = (Inr u, w_s) \<and>
            retrieve_or_spool self load_id w_s = (Inr (jobs_count, pre @ job # post), w) \<and>
            jobs_count \<noteq> 0"
  then show "load_single_package (Suc n) self load_id w_in =
              poll_loop (Suc n) self load_id (pre @ job # post) w"
    by (simp add: load_single_package_def)
qed

theorem failed_job_aborts_package_witness:
  "\<exists>w2. load_single_package (Suc 0) restoring_failed_load ''1700000000'' merge_ready_world =
           Some (Inl (LoadClientJobFailed ''1700000000'' ''orders.a1'' ''bad row''), w2) \<and>
         jobs w2 = [(orders_file, failed_jobs), (orders_items_file, completed_jobs)] \<and>
         failed_messages w2 = [(orders_file, ''bad row'')] \<and>
         archived w2 = Some True \<and>
         trace w2 = [ev_restore_file_load orders_file, ev_fail_job orders_file ''bad row'',
                     ev_complete_load_package True]"
proof -
  let ?R = restoring_failed_load
  define w where "w = snd (retrieve_or_spool ?R ''1700000000'' merge_ready_world)"
  have us: "update_schema ?R ''1700000000'' merge_ready_world = (Inr (), merge_ready_world)"
    by (simp add: update_schema_def begin_schema_update_def merge_ready_world_def
        example_world_def)
  have rs: "retrieve_or_spool ?R ''1700000000'' merge_ready_world =
      (Inr (Suc 0, [] @ failed_orders_job # []), w)"
    unfolding w_def
    by (simp add: retrieve_or_spool_def retrieve_jobs_def list_started_jobs_def Let_def
        restoring_failed_load_def raising_load_def failed_orders_job_def
        merge_ready_world_def example_defs example_load_defs)
  have w: "jobs w = [(orders_file, started_jobs), (orders_items_file, completed_jobs)]"
      "failed_messages w = []" "trace w = [ev_restore_file_load orders_file]"
    unfolding w_def
    by (simp_all add: retrieve_or_spool_def retrieve_jobs_def list_started_jobs_def Let_def
        log_def restoring_failed_load_def raising_load_def failed_orders_job_def
        merge_ready_world_def example_defs example_load_defs)
  have r: "raise_on_failed_jobs (config ?R)"
    by (simp add: restoring_failed_load_def raising_load_def)
  have st: "state failed_orders_job = failed"
    by (simp add: failed_orders_job_def client_job_def)
  have cj0: "complete_jobs ?R ''1700000000'' [] w = (Inr [], w)"
    by (simp add: complete_jobs_def)
  have neq: "orders_file \<noteq> orders_items_file"
    by (simp add: example_defs)
  note th = failed_job_aborts_package [OF r st cj0, of 0 "[]"]
  have h: "update_schema ?R ''1700000000'' merge_ready_world = (Inr (), merge_ready_world) \<and>
      retrieve_or_spool ?R ''1700000000'' merge_ready_world =
        (Inr (Suc 0, [] @ failed_orders_job # []), w) \<and> Suc 0 \<noteq> 0"
    using us rs by simp
  from th [THEN conjunct2, rule_format, OF h]
  have lsp: "load_single_package (Suc 0) ?R ''1700000000'' merge_ready_world =
      poll_loop (Suc 0) ?R ''1700000000'' ([] @ failed_orders_job # []) w"
    by simp
  from th [THEN conjunct1] lsp w neq show ?thesis
    by (auto simp: failed_orders_job_def client_job_def job_id_def orders_file_def
        move_job_def)
qed

subsection \<open>Retrieving started jobs comes before spooling\<close>

lemma log_log [simp]: "log es (log es' w) = log (es' @ es) w"
  by (simp add: log_def)

lemma log_Nil [simp]: "log [] w = w"
  by (simp add: log_def)





subsection \<open>The merge job waits for the jobs of the table chain\<close>

lemma table_chain_loop_result:
  "table_chain_loop children starting_job w table_chain =
     (if \<forall>t \<in> set children.
           \<not> list_ex (blocks_merge starting_job) (list_jobs_for_table w (name t))
      then Some (table_chain @
                 filter (\<lambda>t. list_jobs_for_table w (name t) \<noteq> []) children)
      else None)"
proof (induction children arbitrary: table_chain)
  case Nil
  then show ?case by simp
next
  case (Cons t ts)
  show ?case
  proof (cases "list_jobs_for_table w (name t) = []")
    case True
    then show ?thesis by (simp add: Cons.IH)
  next
    case False
    then show ?thesis
      by (cases "list_ex (blocks_merge starting_job) (list_jobs_for_table w (name t))")
        (simp_all add: Cons.IH Let_def)
  qed
qed

lemma not_blocks_merge_iff:
  "(\<not> list_ex (blocks_merge starting_job) js) \<longleftrightarrow>
   (\<forall>(f, s) \<in> set js. s \<in> {failed_jobs, completed_jobs} \<or>
                        job_id f = job_id (file_name starting_job))"
  by (auto simp: list_ex_iff blocks_merge_def)

text \<open>
  Claim C2: let a followup-capable job be found completed, let its table have the
  top-level table \<open>tp\<close> with write disposition \<open>merge\<close>, and let \<open>children\<close> be \<open>tp\<close> with
  its descendants. If \<open>create_followup_jobs\<close> returns, it returns a merge job exactly when
  every job of every table of \<open>children\<close> is in \<open>failed_jobs\<close> or \<open>completed_jobs\<close> or has
  the job id of the completing job; the merge job is then the one the destination makes
  for the tables of \<open>children\<close> that have jobs. Otherwise it returns no followup job.
\<close>

theorem merge_job_only_when_chain_done:
  assumes "followup starting_job"
    and "get_load_table (file_name starting_job) w = (Inr table, w1)"
    and "get_top_level_table (tables w1) (name table) = Inr tp"
    and "write_disposition tp = Some ''merge''"
    and "get_child_tables (tables w1) (name tp) = Inr children"
    and "create_followup_jobs self load_id completed starting_job w = (Inr fjs, w')"
  shows "(fjs \<noteq> [] \<longleftrightarrow>
            (\<forall>t \<in> set children. \<forall>(f, s) \<in> set (list_jobs_for_table w (name t)).
                s \<in> {failed_jobs, completed_jobs} \<or>
                job_id f = job_id (file_name starting_job))) \<and>
         (fjs \<noteq> [] \<longrightarrow>
            fjs = [client_create_merge_job (client self)
                     (filter (\<lambda>t. list_jobs_for_table w (name t) \<noteq> []) children)])"
proof -
  have j: "list_jobs_for_table w1 = list_jobs_for_table w"
    using get_load_table_jobs [OF assms(2)] by (simp add: list_jobs_for_table_def fun_eq_iff)
  let ?done = "\<forall>t \<in> set children.
      \<not> list_ex (blocks_merge starting_job) (list_jobs_for_table w (name t))"
  let ?chain = "filter (\<lambda>t. list_jobs_for_table w (name t) \<noteq> []) children"
  have loop: "table_chain_loop children starting_job w1 [] =
      (if ?done then Some ?chain else None)"
    by (simp add: table_chain_loop_result j)
  have cfj: "create_followup_jobs self load_id completed starting_job w =
      (case create_merge_job self load_id tp starting_job w1 of
         (Inl e, w2) \<Rightarrow> (Inl e, w2)
       | (Inr None, w2) \<Rightarrow> (Inr [], w2)
       | (Inr (Some job), w2) \<Rightarrow> (Inr [job], w2))"
    using assms(1-4) by (simp add: create_followup_jobs_def)
  have "(fjs \<noteq> [] \<longleftrightarrow> ?done) \<and>
        (fjs \<noteq> [] \<longrightarrow> fjs = [client_create_merge_job (client self) ?chain])"
  proof (cases ?done)
    case True
    with assms(5,6) cfj loop show ?thesis
      by (auto simp: create_merge_job_def split: if_splits)
  next
    case False
    with assms(5,6) cfj loop show ?thesis
      by (auto simp: create_merge_job_def split: if_splits)
  qed
  then show ?thesis
    by (simp add: not_blocks_merge_iff)
qed

theorem merge_job_only_when_chain_done_witness:
  "fst (create_followup_jobs example_load ''1700000000'' completed
          (client_job completed orders_file) merge_ready_world) =
     Inr [(client_job completed merge_file)\<lparr>followup := False\<rparr>] \<and>
   list_all (\<lambda>t. list_all (\<lambda>(f, s). s \<in> {failed_jobs, completed_jobs} \<or>
                       job_id f = job_id (file_name (client_job completed orders_file)))
                (list_jobs_for_table merge_ready_world (name t)))
     [orders_table, orders_items_table] \<and>
   fst (create_followup_jobs example_load ''1700000000'' completed
          (client_job completed orders_file) merge_waiting_world) = Inr [] \<and>
   \<not> list_all (\<lambda>t. list_all (\<lambda>(f, s). s \<in> {failed_jobs, completed_jobs} \<or>
                       job_id f = job_id (file_name (client_job completed orders_file)))
                (list_jobs_for_table merge_waiting_world (name t)))
     [orders_table, orders_items_table]"
proof -
  let ?job = "client_job completed orders_file"
  have fu: "followup ?job" by (simp add: client_job_def)
  have wd: "write_disposition orders_table = Some ''merge''" by (simp add: orders_table_def)
  have glt: "get_load_table (file_name ?job) W = (Inr orders_table, W)"
    if "tables W = example_tables" for W
    using that by (simp add: get_load_table_def Let_def client_job_def example_defs)
  have tl: "get_top_level_table example_tables (name orders_table) = Inr orders_table"
    by (simp add: get_top_level_table_def example_defs)
  have ch: "get_child_tables example_tables (name orders_table) =
      Inr [orders_table, orders_items_table]"
    by (simp add: get_child_tables_def example_defs)
  have tr: "tables merge_ready_world = example_tables"
    and tw: "tables merge_waiting_world = example_tables"
    by (simp_all add: merge_ready_world_def merge_waiting_world_def example_world_def)
  have cw: "create_followup_jobs example_load ''1700000000'' completed ?job
      merge_waiting_world = (Inr [], merge_waiting_world)"
    by (simp add: create_followup_jobs_def create_merge_job_def get_load_table_def
      get_top_level_table_def get_child_tables_def list_jobs_for_table_def blocks_merge_def
      job_id_def Let_def merge_waiting_world_def example_defs example_load_defs)
  note ready = merge_job_only_when_chain_done [OF fu glt [OF tr] tl [folded tr] wd
      ch [folded tr] example_followups [of example_load "''1700000000''"]]
  note waiting = merge_job_only_when_chain_done [OF fu glt [OF tw] tl [folded tw] wd
      ch [folded tw] cw]
  have mj: "client_create_merge_job (client example_load) chain =
      (client_job completed merge_file)\<lparr>followup := False\<rparr>" for chain
    by (simp add: example_load_def example_client_def)
  have r1: "fst (create_followup_jobs example_load ''1700000000'' completed ?job
      merge_ready_world) = Inr [(client_job completed merge_file)\<lparr>followup := False\<rparr>]"
    by (simp add: example_followups mj)
  from ready waiting r1 show ?thesis
    by (simp add: cw list_all_iff)
qed

subsection \<open>The table chain of a merge job is not empty\<close>

lemma concat_chains_Inr:
  "concat_chains rs = Inr cs \<Longrightarrow>
     (\<forall>r \<in> set rs. \<exists>c. r = Inr c \<and> set c \<subseteq> set cs) \<and>
     (\<forall>x \<in> set cs. \<exists>c. Inr c \<in> set rs \<and> x \<in> set c)"
proof (induction rs arbitrary: cs rule: concat_chains.induct)
  case 1
  then show ?case by simp
next
  case (2 e rs)
  then show ?case by simp
next
  case (3 c rs)
  from "3.prems" obtain cs' where cs': "concat_chains rs = Inr cs'" and cs: "cs = c @ cs'"
    by (auto split: sum.splits)
  from "3.IH" [OF cs'] cs show ?case
    by (auto; blast)
qed

text \<open>The chain of a table has the table, and with every table its children.\<close>

lemma child_chain_closed:
  "child_chain n tbls t = Inr chain \<Longrightarrow>
     t \<in> set chain \<and>
     (\<forall>x \<in> set chain. \<forall>c \<in> snd ` set tbls. parent c = Some (name x) \<longrightarrow> c \<in> set chain)"
proof (induction n arbitrary: t chain)
  case 0
  then show ?case by simp
next
  case (Suc n)
  let ?cands = "filter (\<lambda>candidate. parent candidate = Some (name t)) (map snd tbls)"
  from Suc.prems obtain cs
    where cs: "concat_chains (map (child_chain n tbls) ?cands) = Inr cs"
      and chain: "chain = t # cs"
    by (auto split: sum.splits)
  note cc = concat_chains_Inr [OF cs]
  have "c \<in> set chain"
    if x: "x \<in> set chain" and c: "c \<in> snd ` set tbls" and p: "parent c = Some (name x)"
    for x c
  proof (cases "x = t")
    case True
    with c p have "c \<in> set ?cands" by auto
    then have "child_chain n tbls c \<in> set (map (child_chain n tbls) ?cands)" by simp
    with cc obtain cch where cch: "child_chain n tbls c = Inr cch" "set cch \<subseteq> set cs"
      by blast
    from Suc.IH [OF cch(1)] cch(2) chain show ?thesis by auto
  next
    case False
    with x chain have "x \<in> set cs" by simp
    with cc obtain cch where "Inr cch \<in> set (map (child_chain n tbls) ?cands)" "x \<in> set cch"
      by blast
    then obtain c' where c': "child_chain n tbls c' = Inr cch" by auto
    from cc \<open>Inr cch \<in> set (map (child_chain n tbls) ?cands)\<close>
    have sub: "set cch \<subseteq> set cs" by fastforce
    from Suc.IH [OF c'] \<open>x \<in> set cch\<close> c p have "c \<in> set cch" by blast
    with sub chain show ?thesis by auto
  qed
  with chain show ?case by simp
qed

text \<open>Climbing from a table ends in a table whose chain has the table, when every table
  is stored under its name.\<close>

lemma top_level_chain_has_table:
  assumes wf: "\<forall>(k, t) \<in> set tbls. name t = k"
    and S: "tp \<in> S"
      "\<forall>x \<in> S. \<forall>c \<in> snd ` set tbls. parent c = Some (name x) \<longrightarrow> c \<in> S"
  shows "get_top_level_table_rec n tbls tn = Inr tp \<Longrightarrow> map_of tbls tn = Some t \<Longrightarrow> t \<in> S"
proof (induction n arbitrary: tn t)
  case 0
  then show ?case by simp
next
  case (Suc n)
  show ?case
  proof (cases "parent t")
    case None
    with Suc.prems have "tp = t" by simp
    with S(1) show ?thesis by simp
  next
    case (Some p)
    with Suc.prems have up: "get_top_level_table_rec n tbls p = Inr tp" by simp
    then obtain t' where t': "map_of tbls p = Some t'"
      by (cases n; cases "map_of tbls p") auto
    from Suc.IH [OF up t'] have "t' \<in> S" .
    moreover from t' wf have "name t' = p" by (auto dest: map_of_SomeD)
    moreover from Suc.prems(2) have "t \<in> snd ` set tbls"
      by (force dest: map_of_SomeD)
    ultimately show ?thesis using S(2) Some by blast
  qed
qed

lemma top_level_is_stored:
  assumes wf: "\<forall>(k, t) \<in> set tbls. name t = k"
  shows "get_top_level_table_rec n tbls tn = Inr tp \<Longrightarrow> map_of tbls (name tp) = Some tp"
proof (induction n arbitrary: tn)
  case 0
  then show ?case by simp
next
  case (Suc n)
  from Suc.prems obtain t where t: "map_of tbls tn = Some t"
    by (cases "map_of tbls tn") auto
  show ?case
  proof (cases "parent t")
    case None
    with Suc.prems t have "tp = t" by simp
    moreover from t wf have "name t = tn" by (auto dest: map_of_SomeD)
    ultimately show ?thesis using t by simp
  next
    case (Some p)
    with Suc.prems t have "get_top_level_table_rec n tbls p = Inr tp" by simp
    then show ?thesis by (rule Suc.IH)
  qed
qed

lemma set_set_table:
  "(k, t) \<in> set (set_table tn table tbls) \<Longrightarrow>
     (k = tn \<and> t = table) \<or> (k \<noteq> tn \<and> (k, t) \<in> set tbls)"
  by (auto simp: set_table_def split: if_splits)

lemma get_load_table_stored:
  assumes glt: "get_load_table fname w = (Inr table, w1)"
    and wf: "\<forall>(k, t) \<in> set (tables w). name t = k"
  shows "map_of (tables w1) (table_name fname) = Some table \<and>
         name table = table_name fname \<and>
         (\<forall>(k, t) \<in> set (tables w1). name t = k)"
  using glt
proof (cases rule: get_load_table_cases)
  case unchanged
  then have m: "map_of (tables w) (table_name fname) = Some table" by simp
  with wf have "name table = table_name fname" by (auto dest: map_of_SomeD)
  with m unchanged(1) wf show ?thesis by simp
next
  case (stored t0 d)
  from stored(1) wf have n0: "name t0 = table_name fname" by (auto dest: map_of_SomeD)
  from stored(4) have tab: "table = t0\<lparr>write_disposition := Some d\<rparr>" by simp
  from stored(5) have T: "tables w1 = set_table (table_name fname) table (tables w)"
    by (simp add: tab)
  have "map_of (tables w1) (table_name fname) = Some table"
    using stored(1) by (simp add: T map_of_set_table)
  moreover have "name table = table_name fname"
    using n0 tab by simp
  moreover have "\<forall>(k, t) \<in> set (tables w1). name t = k"
    using wf \<open>name table = table_name fname\<close>
    by (auto simp: T dest!: set_set_table)
  ultimately show ?thesis by simp
qed

text \<open>The schema utilities and \<open>get_load_table\<close> raise no \<open>AssertionError\<close>.\<close>

lemma get_write_disposition_rec_no_assertion:
  "get_write_disposition_rec n tbls tn \<noteq> Inl AssertionError"
  by (induction n arbitrary: tn) (auto split: option.splits)

lemma get_top_level_table_rec_no_assertion:
  "get_top_level_table_rec n tbls tn \<noteq> Inl AssertionError"
  by (induction n arbitrary: tn) (auto split: option.splits)

lemma get_write_disposition_no_assertion:
  "get_write_disposition tbls tn \<noteq> Inl AssertionError"
  unfolding get_write_disposition_def by (rule get_write_disposition_rec_no_assertion)

lemma get_top_level_table_no_assertion:
  "get_top_level_table tbls tn \<noteq> Inl AssertionError"
  unfolding get_top_level_table_def by (rule get_top_level_table_rec_no_assertion)

lemma concat_chains_no_assertion:
  "\<forall>r \<in> set rs. r \<noteq> Inl AssertionError \<Longrightarrow> concat_chains rs \<noteq> Inl AssertionError"
  by (induction rs rule: concat_chains.induct) (auto split: sum.splits)

lemma child_chain_no_assertion:
  "child_chain n tbls t \<noteq> Inl AssertionError"
proof (induction n arbitrary: t)
  case 0
  then show ?case by simp
next
  case (Suc n)
  have "concat_chains (map (child_chain n tbls)
          (filter (\<lambda>candidate. parent candidate = Some (name t)) (map snd tbls)))
        \<noteq> Inl AssertionError"
    by (rule concat_chains_no_assertion) (auto simp: Suc.IH)
  then show ?case by (auto split: sum.splits)
qed

lemma get_child_tables_no_assertion:
  "get_child_tables tbls tn \<noteq> Inl AssertionError"
proof (cases "map_of tbls tn")
  case None
  then show ?thesis by (simp add: get_child_tables_def)
next
  case (Some t)
  then have "get_child_tables tbls tn = child_chain (Suc (length tbls)) tbls t"
    by (simp only: get_child_tables_def option.case)
  then show ?thesis by (simp only: child_chain_no_assertion not_False_eq_True)
qed

lemma get_load_table_no_assertion:
  "get_load_table fname w \<noteq> (Inl AssertionError, w')"
proof
  assume a: "get_load_table fname w = (Inl AssertionError, w')"
  then show False
  proof (cases rule: get_load_table_cases)
    case unchanged
    from a obtain t0 where t0: "map_of (tables w) (table_name fname) = Some t0"
      by (cases "map_of (tables w) (table_name fname)") (auto simp: get_load_table_def Let_def)
    with a have "write_disposition t0 = None"
      by (cases "write_disposition t0") (auto simp: get_load_table_def Let_def)
    with a t0 have "get_write_disposition (tables w) (table_name fname) = Inl AssertionError"
      by (auto simp: get_load_table_def Let_def split: sum.splits error.splits)
    then show False
      by (simp add: get_write_disposition_no_assertion)
  next
    case (stored t0 d)
    then show False by simp
  qed
qed

text \<open>
  Claim C10: whenever a job whose file is in \<open>started_jobs\<close> is handed to
  \<open>create_followup_jobs\<close>, the assertion of \<open>create_merge_job\<close> that the table chain is not
  empty does not fail: the table of the job is among the child tables of its top-level
  table, it has the job's own file, and that file never blocks the merge. The schema
  stores every table under its name.
\<close>

theorem merge_chain_not_empty:
  assumes wf: "\<forall>(k, t) \<in> set (tables w). name t = k"
    and stored_file: "(file_name starting_job, started_jobs) \<in> set (jobs w)"
  shows "fst (create_followup_jobs self load_id st starting_job w) \<noteq> Inl AssertionError"
proof
  assume a: "fst (create_followup_jobs self load_id st starting_job w) = Inl AssertionError"
  let ?tn = "table_name (file_name starting_job)"
  obtain r1 w1 where glt: "get_load_table (file_name starting_job) w = (r1, w1)"
    by (cases "get_load_table (file_name starting_job) w")
  from a have fu: "followup starting_job" "st = completed"
    by (auto simp: create_followup_jobs_def split: if_splits)
  from a fu glt get_load_table_no_assertion [of "file_name starting_job" w w1]
  obtain table where r1: "r1 = Inr table"
    by (cases r1) (auto simp: create_followup_jobs_def)
  note glt = glt [unfolded r1]
  from get_load_table_stored [OF glt wf]
  have stored: "map_of (tables w1) ?tn = Some table" and nm: "name table = ?tn"
    and wf1: "\<forall>(k, t) \<in> set (tables w1). name t = k"
    by simp_all
  from a fu glt obtain tp where tl: "get_top_level_table (tables w1) (name table) = Inr tp"
    by (cases "get_top_level_table (tables w1) (name table)")
      (auto simp: create_followup_jobs_def get_top_level_table_no_assertion)
  from a fu glt tl have wd: "write_disposition tp = Some ''merge''"
    by (auto simp: create_followup_jobs_def split: option.splits if_splits)
  from a fu glt tl wd
  have cm: "fst (create_merge_job self load_id tp starting_job w1) = Inl AssertionError"
    by (auto simp: create_followup_jobs_def split: prod.splits sum.splits option.splits)
  from cm get_child_tables_no_assertion [of "tables w1" "name tp"] obtain children
    where ch: "get_child_tables (tables w1) (name tp) = Inr children"
    by (cases "get_child_tables (tables w1) (name tp)") (auto simp: create_merge_job_def)
  from cm ch have empty: "table_chain_loop children starting_job w1 [] = Some []"
    by (auto simp: create_merge_job_def split: option.splits if_splits)
  have tp_stored: "map_of (tables w1) (name tp) = Some tp"
    using top_level_is_stored [OF wf1 tl [unfolded get_top_level_table_def]] .
  with ch have cc: "child_chain (Suc (length (tables w1))) (tables w1) tp = Inr children"
    by (simp add: get_child_tables_def)
  note closed = child_chain_closed [OF cc]
  have "table \<in> set children"
    using top_level_chain_has_table [OF wf1 closed [THEN conjunct1] closed [THEN conjunct2]
        tl [unfolded get_top_level_table_def nm] stored] .
  moreover from empty have "\<forall>t \<in> set children. list_jobs_for_table w1 (name t) = []"
    by (auto simp: table_chain_loop_result filter_empty_conv split: if_splits)
  ultimately have "list_jobs_for_table w1 (name table) = []" by blast
  moreover have "jobs w1 = jobs w"
    using get_load_table_jobs [OF glt] by simp
  ultimately have "filter (\<lambda>(f, s). table_name f = ?tn) (jobs w) = []"
    by (simp add: list_jobs_for_table_def nm)
  with stored_file show False
    by (auto simp: filter_empty_conv)
qed

theorem merge_chain_not_empty_witness:
  "fst (create_followup_jobs example_load ''1700000000'' completed
          (client_job completed orders_file) merge_ready_world) \<noteq> Inl AssertionError \<and>
   fst (create_followup_jobs example_load ''1700000000'' completed
          (client_job completed orders_file) merge_ready_world) =
     Inr [client_create_merge_job (client example_load) [orders_table, orders_items_table]]"
proof -
  have wf: "\<forall>(k, t) \<in> set (tables merge_ready_world). name t = k"
    by (simp add: merge_ready_world_def example_defs)
  have sf: "(file_name (client_job completed orders_file), started_jobs)
      \<in> set (jobs merge_ready_world)"
    by (simp add: merge_ready_world_def client_job_def)
  from merge_chain_not_empty [OF wf sf, of example_load "''1700000000''" completed]
  show ?thesis
    by (simp add: example_followups)
qed

subsection \<open>When the package is archived\<close>

text \<open>Nothing but \<open>complete_load_package\<close> changes whether the package is archived.\<close>

lemma archived_log [simp]: "archived (log es w) = archived w"
  by (simp add: log_def)

lemma get_load_table_archived:
  "get_load_table fname w = (r, w') \<Longrightarrow> archived w' = archived w"
  using get_load_table_world [of fname w r w'] by auto

lemma get_jobs_info_loop_archived:
  "get_jobs_info_loop fs disposition infos w = (r, w') \<Longrightarrow> archived w' = archived w"
proof (induction fs arbitrary: infos w)
  case Nil
  then show ?case by simp
next
  case (Cons f fs)
  show ?case
  proof (cases "disposition = None \<or> disposition = Some []")
    case True
    with Cons.prems have "get_jobs_info_loop fs disposition (infos @ [f]) w = (r, w')"
      by simp
    then show ?thesis by (rule Cons.IH)
  next
    case False
    obtain r1 w1 where glt: "get_load_table f w = (r1, w1)"
      by (cases "get_load_table f w")
    note a1 = get_load_table_archived [OF glt]
    show ?thesis
    proof (cases r1)
      case (Inl e)
      with Cons.prems False glt a1 show ?thesis by auto
    next
      case (Inr table)
      with Cons.prems False glt
      have "get_jobs_info_loop fs disposition (infos @ [f]) w1 = (r, w') \<or>
            get_jobs_info_loop fs disposition infos w1 = (r, w')"
        by (auto split: if_splits)
      with a1 show ?thesis using Cons.IH by metis
    qed
  qed
qed

lemma update_schema_archived:
  assumes "update_schema self load_id w = (r, w')"
  shows "archived w' = archived w"
proof (cases "begin_schema_update w")
  case None
  with assms show ?thesis by (simp add: update_schema_def)
next
  case (Some expected)
  let ?w1 = "log [ev_initialize_storage False []] w"
  obtain r2 w2 where g1: "get_jobs_info load_id None ?w1 = (r2, w2)"
    by (cases "get_jobs_info load_id None ?w1")
  from get_jobs_info_loop_archived [OF g1 [unfolded get_jobs_info_def]]
  have a2: "archived w2 = archived w" by simp
  show ?thesis
  proof (cases r2)
    case (Inl e)
    with assms Some g1 a2 show ?thesis by (simp add: update_schema_def Let_def)
  next
    case (Inr all_jobs)
    let ?w3 = "log [ev_update_storage_schema False
                 (map table_name all_jobs @ map name (dlt_tables w2))] w2"
    obtain r4 w4 where g2: "get_jobs_info load_id (Some ''merge'') ?w3 = (r4, w4)"
      by (cases "get_jobs_info load_id (Some ''merge'') ?w3")
    from get_jobs_info_loop_archived [OF g2 [unfolded get_jobs_info_def]] a2
    have a4: "archived w4 = archived w" by simp
    from assms Some g1 Inr g2 a4 show ?thesis
      by (cases r4)
        (auto simp: update_schema_def Let_def commit_schema_update_def split: if_splits)
  qed
qed

lemma w_spool_job_archived:
  assumes "w_spool_job self f load_id w = (job, w')"
  shows "archived w' = archived w"
proof -
  obtain r1 w1 where t: "w_spool_job_try self f w = (r1, w1)"
    by (cases "w_spool_job_try self f w")
  have a1: "archived w1 = archived w"
  proof (cases "file_format f \<in> set (supported_loader_file_formats self)")
    case False
    with t show ?thesis by (simp add: w_spool_job_try_def)
  next
    case True
    obtain r0 w0 where glt: "get_load_table f w = (r0, w0)"
      by (cases "get_load_table f w")
    from get_load_table_archived [OF glt] have "archived w0 = archived w" .
    with t True glt show ?thesis
      by (cases r0) (auto simp: w_spool_job_try_def split: option.splits if_splits)
  qed
  from assms t a1 show ?thesis
    by (cases r1) (auto simp: w_spool_job_def start_job_def Let_def split: if_splits)
qed

lemma starmap_w_spool_job_archived:
  "starmap_w_spool_job self fs load_id w = (js, w') \<Longrightarrow> archived w' = archived w"
proof (induction fs arbitrary: js w w')
  case Nil
  then show ?case by simp
next
  case (Cons f fs)
  obtain job w1 where s1: "w_spool_job self f load_id w = (job, w1)"
    by (cases "w_spool_job self f load_id w")
  obtain js2 w2 where s2: "starmap_w_spool_job self fs load_id w1 = (js2, w2)"
    by (cases "starmap_w_spool_job self fs load_id w1")
  from Cons.prems s1 s2 have "w' = w2" by simp
  with Cons.IH [OF s2] w_spool_job_archived [OF s1] show ?case by simp
qed

lemma spool_new_jobs_archived:
  assumes "spool_new_jobs self load_id w = (r, w')"
  shows "archived w' = archived w"
proof (cases "take (workers (config self)) (list_new_jobs w) = []")
  case True
  with assms show ?thesis by (simp add: spool_new_jobs_def Let_def)
next
  case False
  obtain js w1
    where s: "starmap_w_spool_job self (take (workers (config self)) (list_new_jobs w))
                load_id w = (js, w1)"
    by (metis prod.exhaust)
  with assms False have "w' = w1" by (simp add: spool_new_jobs_def Let_def)
  with starmap_w_spool_job_archived [OF s] show ?thesis by simp
qed

lemma retrieve_jobs_loop_archived:
  "retrieve_jobs_loop self fs js w = (r, w') \<Longrightarrow> archived w' = archived w"
proof (induction fs arbitrary: js w)
  case Nil
  then show ?case by simp
next
  case (Cons f fs)
  show ?case
  proof (cases "client_restore_file_load (client self) f")
    case (Inr job)
    with Cons.prems
    have "retrieve_jobs_loop self fs (js @ [job]) (log [ev_restore_file_load f] w) = (r, w')"
      by (simp add: Let_def)
    from Cons.IH [OF this] show ?thesis by simp
  next
    case (Inl e)
    show ?thesis
    proof (cases "is_DestinationTerminalException e")
      case True
      with Cons.prems Inl
      have "retrieve_jobs_loop self fs
              (js @ [EmptyLoadJob_from_file_path f failed (pretty_format_exception e)])
              (log [ev_restore_file_load f] w) = (r, w')"
        by (simp add: Let_def)
      from Cons.IH [OF this] show ?thesis by simp
    next
      case False
      with Cons.prems Inl show ?thesis by (auto simp: Let_def)
    qed
  qed
qed

lemma retrieve_or_spool_archived:
  assumes "retrieve_or_spool self load_id w = (r, w')"
  shows "archived w' = archived w"
proof -
  obtain r1 w1 where rj: "retrieve_jobs self load_id w = (r1, w1)"
    by (cases "retrieve_jobs self load_id w")
  have a1: "archived w1 = archived w"
  proof (cases "list_started_jobs w = []")
    case True
    with rj show ?thesis by (simp add: retrieve_jobs_def)
  next
    case False
    obtain r0 w0 where l: "retrieve_jobs_loop self (list_started_jobs w) [] w = (r0, w0)"
      by (cases "retrieve_jobs_loop self (list_started_jobs w) [] w")
    from retrieve_jobs_loop_archived [OF l] rj False l show ?thesis
      by (cases r0) (auto simp: retrieve_jobs_def Let_def)
  qed
  show ?thesis
  proof (cases r1)
    case (Inl e)
    with assms rj a1 show ?thesis by (simp add: retrieve_or_spool_def)
  next
    case (Inr p)
    obtain n js where p: "p = (n, js)" by (cases p)
    show ?thesis
    proof (cases "js = []")
      case False
      with assms rj Inr p a1 show ?thesis by (simp add: retrieve_or_spool_def)
    next
      case True
      obtain n2 js2 w2 where sp: "spool_new_jobs self load_id w1 = ((n2, js2), w2)"
        by (metis prod.exhaust)
      from spool_new_jobs_archived [OF sp] a1 have "archived w2 = archived w" by simp
      with assms rj Inr p True sp show ?thesis
        by (auto simp: retrieve_or_spool_def split: if_splits)
    qed
  qed
qed

lemma complete_jobs_loop_archived:
  "complete_jobs_loop self load_id js remaining w = (r, w') \<Longrightarrow> archived w' = archived w"
proof (induction js arbitrary: remaining w)
  case Nil
  then show ?case by simp
next
  case (Cons job js)
  show ?case
  proof (cases "state job")
    case running
    with Cons.prems Cons.IH show ?thesis by auto
  next
    case failed
    with Cons.prems Cons.IH show ?thesis
      by (fastforce simp: fail_job_def count_terminal_def split: if_splits)
  next
    case retry
    with Cons.prems
    have "complete_jobs_loop self load_id js remaining (retry_job (file_name job) w) = (r, w')"
      by simp
    from Cons.IH [OF this] show ?thesis by (simp add: retry_job_def)
  next
    case completed
    obtain r1 w1 where c: "create_followup_jobs self load_id completed job w = (r1, w1)"
      by (cases "create_followup_jobs self load_id completed job w")
    from create_followup_jobs_metrics [OF c] have a1: "archived w1 = archived w" by simp
    show ?thesis
    proof (cases r1)
      case (Inl e)
      with Cons.prems completed c a1 show ?thesis by simp
    next
      case (Inr fjs)
      let ?w3 = "count_terminal completed (file_name job, completed_jobs)
                   (snd (complete_job (file_name job)
                      (snd (add_followup_jobs fjs remaining w1))))"
      have loop: "complete_jobs_loop self load_id js
                    (remaining @ filter (\<lambda>fj. state fj \<noteq> running) fjs) ?w3 = (r, w')"
        using Cons.prems completed c Inr
        by (simp add: add_followup_jobs_result complete_job_def)
      have "archived ?w3 = archived w1"
        by (simp add: add_followup_jobs_result complete_job_def count_terminal_def)
      with Cons.IH [OF loop] a1 show ?thesis by simp
    qed
  qed
qed

lemma poll_loop_archived:
  "poll_loop n self load_id js w = Some (Inr u, w') \<Longrightarrow> archived w' = archived w"
proof (induction n arbitrary: js w)
  case 0
  then show ?case by simp
next
  case (Suc n)
  obtain r1 w1 where c: "complete_jobs self load_id js w = (r1, w1)"
    by (cases "complete_jobs self load_id js w")
  from complete_jobs_loop_archived [OF c [unfolded complete_jobs_def]]
  have a1: "archived w1 = archived w" .
  show ?case
  proof (cases r1)
    case (Inl e)
    with Suc.prems c show ?thesis
      by (auto split: if_splits prod.splits sum.splits)
  next
    case (Inr remaining)
    show ?thesis
    proof (cases "remaining = []")
      case True
      with Suc.prems c Inr a1 show ?thesis by simp
    next
      case False
      with Suc.prems c Inr have "poll_loop n self load_id remaining w1 = Some (Inr u, w')"
        by simp
      from Suc.IH [OF this] a1 show ?thesis by simp
    qed
  qed
qed

lemmas loader_defs = load_single_package_def update_schema_def begin_schema_update_def
  retrieve_or_spool_def retrieve_jobs_def spool_new_jobs_def w_spool_job_def
  w_spool_job_try_def complete_jobs_def create_followup_jobs_def create_merge_job_def
  get_load_table_def get_write_disposition_def get_top_level_table_def get_child_tables_def
  set_table_def list_new_jobs_def list_started_jobs_def list_jobs_for_table_def
  blocks_merge_def job_id_def start_job_def complete_job_def add_new_job_def move_job_def
  count_terminal_def state_label_def inc_label_def log_def List.map_filter_def Let_def

text \<open>The started files are among the files of the jobs that are polled.\<close>

lemma in_list_started_jobs:
  "f \<in> set (list_started_jobs w) \<longleftrightarrow> (f, started_jobs) \<in> set (jobs w)"
  by (force simp: list_started_jobs_def)

lemma started_move_job:
  "dst \<noteq> started_jobs \<Longrightarrow>
     (g, started_jobs) \<in> set (move_job f started_jobs f' dst js) \<longleftrightarrow>
     (g, started_jobs) \<in> set js \<and> g \<noteq> f"
  by (induction js) (auto simp: move_job_def split: if_splits)

lemma started_terminal [simp]:
  "set (list_started_jobs (snd (fail_job f m w))) = set (list_started_jobs w) - {f}"
  "set (list_started_jobs (retry_job f w)) = set (list_started_jobs w) - {f}"
  "set (list_started_jobs (snd (complete_job f w))) = set (list_started_jobs w) - {f}"
  by (auto simp: in_list_started_jobs fail_job_def retry_job_def complete_job_def
      started_move_job)

lemma started_count_terminal [simp]:
  "list_started_jobs (count_terminal st loc w) = list_started_jobs w"
  by (simp add: list_started_jobs_def count_terminal_def)

lemma started_start_job:
  "set (list_started_jobs (start_job f w)) \<subseteq> insert f (set (list_started_jobs w))"
  by (auto simp: in_list_started_jobs start_job_def move_job_def split: if_splits)

lemma started_add_followup_jobs:
  "set (list_started_jobs (snd (add_followup_jobs fjs remaining w))) =
     set (list_started_jobs w) \<union> file_name ` {fj \<in> set fjs. state fj \<noteq> running}"
proof -
  have "(g, started_jobs) \<in> set (map
          (\<lambda>fj. (file_name fj, if state fj = running then new_jobs else started_jobs)) fjs)
        \<longleftrightarrow> g \<in> file_name ` {fj \<in> set fjs. state fj \<noteq> running}" for g
    by (auto simp: image_iff split: if_splits)
  then show ?thesis
    by (auto simp: in_list_started_jobs add_followup_jobs_result simp del: set_map)
qed

lemma file_name_next_poll [simp]: "file_name (next_poll job) = file_name job"
  by (simp add: next_poll_def split: list.splits)

lemma complete_jobs_loop_started:
  "complete_jobs_loop self load_id js remaining w = (Inr remaining', w') \<Longrightarrow>
     set (list_started_jobs w) \<subseteq> file_name ` set js \<union> file_name ` set remaining \<Longrightarrow>
     set (list_started_jobs w') \<subseteq> file_name ` set remaining'"
proof (induction js arbitrary: remaining w)
  case Nil
  then show ?case by auto
next
  case (Cons job js)
  show ?case
  proof (cases "state job")
    case running
    with Cons.prems(1)
    have "complete_jobs_loop self load_id js (remaining @ [next_poll job]) w =
        (Inr remaining', w')"
      by simp
    moreover from Cons.prems(2)
    have "set (list_started_jobs w) \<subseteq>
        file_name ` set js \<union> file_name ` set (remaining @ [next_poll job])"
      by auto
    ultimately show ?thesis by (rule Cons.IH)
  next
    case failed
    let ?w2 = "count_terminal failed (file_name job, failed_jobs)
                 (snd (fail_job (file_name job) (exception job) w))"
    from Cons.prems(1) failed
    have "complete_jobs_loop self load_id js remaining ?w2 = (Inr remaining', w')"
      by (auto simp: fail_job_def split: if_splits)
    moreover from Cons.prems(2)
    have "set (list_started_jobs ?w2) \<subseteq> file_name ` set js \<union> file_name ` set remaining"
      by auto
    ultimately show ?thesis by (rule Cons.IH)
  next
    case retry
    with Cons.prems(1)
    have "complete_jobs_loop self load_id js remaining (retry_job (file_name job) w) =
        (Inr remaining', w')"
      by simp
    moreover from Cons.prems(2)
    have "set (list_started_jobs (retry_job (file_name job) w)) \<subseteq>
        file_name ` set js \<union> file_name ` set remaining"
      by auto
    ultimately show ?thesis by (rule Cons.IH)
  next
    case completed
    obtain r1 w1 where c: "create_followup_jobs self load_id completed job w = (r1, w1)"
      by (cases "create_followup_jobs self load_id completed job w")
    from create_followup_jobs_metrics [OF c]
    have j1: "list_started_jobs w1 = list_started_jobs w"
      by (simp add: list_started_jobs_def)
    from Cons.prems(1) completed c obtain fjs where r1: "r1 = Inr fjs"
      by (cases r1) auto
    let ?rem = "remaining @ filter (\<lambda>fj. state fj \<noteq> running) fjs"
    let ?w3 = "count_terminal completed (file_name job, completed_jobs)
                 (snd (complete_job (file_name job)
                    (snd (add_followup_jobs fjs remaining w1))))"
    have "complete_jobs_loop self load_id js ?rem ?w3 = (Inr remaining', w')"
      using Cons.prems(1) completed c r1
      by (simp add: add_followup_jobs_result complete_job_def)
    moreover from Cons.prems(2)
    have "set (list_started_jobs ?w3) \<subseteq> file_name ` set js \<union> file_name ` set ?rem"
      by (auto simp: started_add_followup_jobs j1)
    ultimately show ?thesis by (rule Cons.IH)
  qed
qed

lemma poll_loop_started:
  "poll_loop n self load_id js w = Some (Inr u, w') \<Longrightarrow>
     set (list_started_jobs w) \<subseteq> file_name ` set js \<Longrightarrow> list_started_jobs w' = []"
proof (induction n arbitrary: js w)
  case 0
  then show ?case by simp
next
  case (Suc n)
  obtain r1 w1 where c: "complete_jobs self load_id js w = (r1, w1)"
    by (cases "complete_jobs self load_id js w")
  from Suc.prems(1) c obtain remaining where r1: "r1 = Inr remaining"
    by (cases r1) (auto split: if_splits prod.splits sum.splits)
  from complete_jobs_loop_started [OF c [unfolded complete_jobs_def r1]] Suc.prems(2)
  have s1: "set (list_started_jobs w1) \<subseteq> file_name ` set remaining" by simp
  show ?case
  proof (cases "remaining = []")
    case True
    with Suc.prems(1) c r1 s1 show ?thesis by simp
  next
    case False
    with Suc.prems(1) c r1 have "poll_loop n self load_id remaining w1 = Some (Inr u, w')"
      by simp
    from Suc.IH [OF this s1] show ?thesis .
  qed
qed

lemma retrieve_jobs_loop_files:
  assumes ok: "\<forall>f job. client_restore_file_load (client self) f = Inr job \<longrightarrow>
                 file_name job = f"
  shows "retrieve_jobs_loop self fs js w = (Inr js', w') \<Longrightarrow>
     map file_name js' = map file_name js @ fs \<and> jobs w' = jobs w"
proof (induction fs arbitrary: js w)
  case Nil
  then show ?case by simp
next
  case (Cons f fs)
  show ?case
  proof (cases "client_restore_file_load (client self) f")
    case (Inr job)
    with Cons.prems
    have "retrieve_jobs_loop self fs (js @ [job]) (log [ev_restore_file_load f] w) =
        (Inr js', w')"
      by (simp add: Let_def)
    from Cons.IH [OF this] ok Inr show ?thesis by simp
  next
    case (Inl e)
    with Cons.prems
    have "retrieve_jobs_loop self fs
            (js @ [EmptyLoadJob_from_file_path f failed (pretty_format_exception e)])
            (log [ev_restore_file_load f] w) = (Inr js', w')"
      by (auto simp: Let_def split: if_splits)
    from Cons.IH [OF this] show ?thesis
      by (simp add: EmptyLoadJob_from_file_path_def)
  qed
qed

lemma w_spool_job_started:
  assumes "w_spool_job self f load_id w = (job, w')"
  shows "set (list_started_jobs w') \<subseteq>
           set (list_started_jobs w) \<union> file_name ` set (List.map_filter id [job])"
proof -
  obtain r1 w1 where t: "w_spool_job_try self f w = (r1, w1)"
    by (cases "w_spool_job_try self f w")
  have j1: "jobs w1 = jobs w"
  proof (cases "file_format f \<in> set (supported_loader_file_formats self)")
    case False
    with t show ?thesis by (auto simp: w_spool_job_try_def)
  next
    case True
    obtain r0 w0 where glt: "get_load_table f w = (r0, w0)"
      by (cases "get_load_table f w")
    from get_load_table_jobs [OF glt] have "jobs w0 = jobs w" by simp
    with t True glt show ?thesis
      by (cases r0) (auto simp: w_spool_job_try_def split: option.splits if_splits)
  qed
  then have s1: "list_started_jobs w1 = list_started_jobs w"
    by (simp add: list_started_jobs_def)
  show ?thesis
  proof (cases job)
    case None
    with assms t have "w' = w1"
      by (cases r1) (auto simp: w_spool_job_def Let_def split: if_splits)
    with s1 None show ?thesis by (simp add: List.map_filter_simps)
  next
    case (Some j)
    with assms t have "w' = start_job (file_name j) w1"
      by (cases r1) (auto simp: w_spool_job_def Let_def split: if_splits)
    with started_start_job [of "file_name j" w1] s1 Some show ?thesis
      by (auto simp: List.map_filter_simps)
  qed
qed

lemma starmap_w_spool_job_started:
  "starmap_w_spool_job self fs load_id w = (js, w') \<Longrightarrow>
     set (list_started_jobs w') \<subseteq>
       set (list_started_jobs w) \<union> file_name ` set (List.map_filter id js)"
proof (induction fs arbitrary: js w w')
  case Nil
  then show ?case by (auto simp: List.map_filter_simps)
next
  case (Cons f fs)
  obtain job w1 where s1: "w_spool_job self f load_id w = (job, w1)"
    by (cases "w_spool_job self f load_id w")
  obtain js2 w2 where s2: "starmap_w_spool_job self fs load_id w1 = (js2, w2)"
    by (cases "starmap_w_spool_job self fs load_id w1")
  from Cons.prems s1 s2 have e: "w' = w2" "js = job # js2" by simp_all
  from w_spool_job_started [OF s1] Cons.IH [OF s2] e show ?case
    by (cases job) (auto simp: List.map_filter_simps)
qed

lemma retrieve_or_spool_started:
  assumes ok: "\<forall>f job. client_restore_file_load (client self) f = Inr job \<longrightarrow>
                 file_name job = f"
    and r: "retrieve_or_spool self load_id w = (Inr (n, js), w1)"
  shows "set (list_started_jobs w1) \<subseteq> file_name ` set js"
proof (cases "list_started_jobs w = []")
  case False
  obtain r0 w0 where l: "retrieve_jobs_loop self (list_started_jobs w) [] w = (r0, w0)"
    by (cases "retrieve_jobs_loop self (list_started_jobs w) [] w")
  from r False l obtain js0 where r0: "r0 = Inr js0"
    by (cases r0) (auto simp: retrieve_or_spool_def retrieve_jobs_def Let_def)
  from retrieve_jobs_loop_files [OF ok l [unfolded r0]]
  have f0: "map file_name js0 = list_started_jobs w" and j0: "jobs w0 = jobs w" by simp_all
  with False have "js0 \<noteq> []" by auto
  with r False l r0 have "js = js0" and "jobs w1 = jobs w0"
    by (auto simp: retrieve_or_spool_def retrieve_jobs_def Let_def)
  with j0 have "list_started_jobs w1 = list_started_jobs w"
    by (simp add: list_started_jobs_def)
  with f0 \<open>js = js0\<close> show ?thesis
    by (metis image_set order_refl)
next
  case True
  then have rj: "retrieve_jobs self load_id w = (Inr (0, []), w)"
    by (simp add: retrieve_jobs_def)
  show ?thesis
  proof (cases "take (workers (config self)) (list_new_jobs w) = []")
    case empty: True
    with r rj have "w1 = w"
      by (simp add: retrieve_or_spool_def spool_new_jobs_def Let_def)
    with True show ?thesis by simp
  next
    case False
    obtain js2 w2
      where s: "starmap_w_spool_job self (take (workers (config self)) (list_new_jobs w))
                  load_id w = (js2, w2)"
      by (metis prod.exhaust)
    with r rj False have "js = List.map_filter id js2" and "jobs w1 = jobs w2"
      by (auto simp: retrieve_or_spool_def spool_new_jobs_def Let_def split: if_splits)
    then have "list_started_jobs w1 = list_started_jobs w2" and "js = List.map_filter id js2"
      by (simp_all add: list_started_jobs_def)
    with starmap_w_spool_job_started [OF s] True show ?thesis by simp
  qed
qed

text \<open>
  Claim C1, as stated: a run that enters the poll loop and sees every job reach a terminal
  state without the package-fatal error archives the package with \<open>aborted=false\<close> in the
  same invocation, leaving \<open>new_jobs\<close> and \<open>started_jobs\<close> empty. It fails twice. The first
  run below spools the two files of the package, finds both completed, creates and
  completes the merge job, and returns with every file in \<open>completed_jobs\<close> and the
  package not archived. The second run has one worker: it spools and completes the first
  file, and returns with the second file still in \<open>new_jobs\<close> and the package not archived.
\<close>

theorem poll_loop_exit_does_not_archive:
  "map_option fst (load_single_package (Suc (Suc 0)) example_load ''1700000000''
       example_world) = Some (Inr ()) \<and>
   map_option (jobs \<circ> snd) (load_single_package (Suc (Suc 0)) example_load ''1700000000''
       example_world) =
     Some [(orders_file, completed_jobs), (orders_items_file, completed_jobs),
           (merge_file, completed_jobs)] \<and>
   map_option (archived \<circ> snd) (load_single_package (Suc (Suc 0)) example_load
       ''1700000000'' example_world) = Some None \<and>
   fst (retrieve_or_spool single_worker_load ''1700000000'' example_world) =
     Inr (Suc 0, [client_job completed orders_file]) \<and>
   map_option fst (load_single_package (Suc 0) single_worker_load ''1700000000''
       example_world) = Some (Inr ()) \<and>
   map_option (list_new_jobs \<circ> snd) (load_single_package (Suc 0) single_worker_load
       ''1700000000'' example_world) = Some [orders_items_file] \<and>
   map_option (list_started_jobs \<circ> snd) (load_single_package (Suc 0) single_worker_load
       ''1700000000'' example_world) = Some [] \<and>
   map_option (archived \<circ> snd) (load_single_package (Suc 0) single_worker_load
       ''1700000000'' example_world) = Some None"
  by (simp add: loader_defs example_defs example_load_defs single_worker_load_def)

lemma retrieve_jobs_loop_length:
  "retrieve_jobs_loop self fs js w = (Inr js', w') \<Longrightarrow> length js' = length js + length fs"
proof (induction fs arbitrary: js w)
  case Nil
  then show ?case by simp
next
  case (Cons f fs)
  show ?case
  proof (cases "client_restore_file_load (client self) f")
    case (Inr job)
    with Cons.prems
    have "retrieve_jobs_loop self fs (js @ [job]) (log [ev_restore_file_load f] w) =
        (Inr js', w')"
      by (simp add: Let_def)
    from Cons.IH [OF this] show ?thesis by simp
  next
    case (Inl e)
    with Cons.prems
    have "retrieve_jobs_loop self fs
            (js @ [EmptyLoadJob_from_file_path f failed (pretty_format_exception e)])
            (log [ev_restore_file_load f] w) = (Inr js', w')"
      by (auto simp: Let_def split: if_splits)
    from Cons.IH [OF this] show ?thesis by simp
  qed
qed

text \<open>Without jobs there is no started file and, with at least one worker, no new file.\<close>

lemma retrieve_or_spool_no_jobs:
  assumes r: "retrieve_or_spool self load_id w = (Inr (0, js), w1)"
    and workers: "0 < workers (config self)"
  shows "w1 = w \<and> list_started_jobs w = [] \<and> list_new_jobs w = []"
proof -
  have started: "list_started_jobs w = []"
  proof (rule ccontr)
    assume ne: "list_started_jobs w \<noteq> []"
    obtain r0 w0 where l: "retrieve_jobs_loop self (list_started_jobs w) [] w = (r0, w0)"
      by (cases "retrieve_jobs_loop self (list_started_jobs w) [] w")
    show False
    proof (cases r0)
      case (Inl e)
      with r ne l show False
        by (simp add: retrieve_or_spool_def retrieve_jobs_def Let_def)
    next
      case (Inr js0)
      from retrieve_jobs_loop_length [OF l [unfolded Inr]] ne have "js0 \<noteq> []" by auto
      with r ne l Inr show False
        by (simp add: retrieve_or_spool_def retrieve_jobs_def Let_def)
    qed
  qed
  then have rj: "retrieve_jobs self load_id w = (Inr (0, []), w)"
    by (simp add: retrieve_jobs_def)
  have tk: "take (workers (config self)) (list_new_jobs w) = []"
  proof (rule ccontr)
    assume ne: "take (workers (config self)) (list_new_jobs w) \<noteq> []"
    obtain js2 w2
      where s: "starmap_w_spool_job self (take (workers (config self)) (list_new_jobs w))
                  load_id w = (js2, w2)"
      by (metis prod.exhaust)
    with r rj ne show False
      by (auto simp: retrieve_or_spool_def spool_new_jobs_def Let_def min_def
          split: if_splits)
  qed
  with workers have new: "list_new_jobs w = []" by (cases "list_new_jobs w") auto
  from r rj tk have "w1 = w"
    by (simp add: retrieve_or_spool_def spool_new_jobs_def Let_def)
  with started new show ?thesis by simp
qed

text \<open>
  Claim C1, amended: a run of \<open>load_single_package\<close> that enters the poll loop (the job
  count is not zero) and returns without exception leaves the package as it was, archived
  or not: the loop ends without a call of \<open>complete_package\<close>. After such a run
  \<open>started_jobs\<close> is empty, provided \<open>restore_file_load\<close> returns a job for the file it
  was asked for; \<open>new_jobs\<close> need not be empty. The package is archived with
  \<open>aborted=false\<close>, after \<open>complete_load\<close>, by a run that finds no job at all; then there is
  neither a started nor a new job (with at least one worker configured).
\<close>

theorem package_archived_by_run_without_jobs:
  assumes "update_schema self load_id w_in = (Inr u, w)"
    and "retrieve_or_spool self load_id w = (Inr (jobs_count, js), w1)"
  shows "(jobs_count \<noteq> 0 \<longrightarrow>
            (\<forall>w'. load_single_package fuel self load_id w_in = Some (Inr (), w') \<longrightarrow>
                  archived w' = archived w_in \<and>
                  ((\<forall>f job. client_restore_file_load (client self) f = Inr job \<longrightarrow>
                             file_name job = f) \<longrightarrow>
                   list_started_jobs w' = []))) \<and>
         (jobs_count = 0 \<and> 0 < workers (config self) \<longrightarrow>
            (\<exists>w'. load_single_package fuel self load_id w_in = Some (Inr (), w') \<and>
                  archived w' = Some False \<and>
                  list_new_jobs w' = [] \<and> list_started_jobs w' = [] \<and>
                  trace w' = trace w1 @ [ev_complete_load load_id,
                                         ev_complete_load_package False]))"
proof -
  have poll: "archived w' = archived w_in \<and>
        ((\<forall>f job. client_restore_file_load (client self) f = Inr job \<longrightarrow>
                   file_name job = f) \<longrightarrow>
         list_started_jobs w' = [])"
    if n: "jobs_count \<noteq> 0"
      and run: "load_single_package fuel self load_id w_in = Some (Inr (), w')" for w'
  proof -
    from run assms n have p: "poll_loop fuel self load_id js w1 = Some (Inr (), w')"
      by (simp add: load_single_package_def)
    from poll_loop_archived [OF p] retrieve_or_spool_archived [OF assms(2)]
      update_schema_archived [OF assms(1)]
    have a: "archived w' = archived w_in" by simp
    have "list_started_jobs w' = []"
      if ok: "\<forall>f job. client_restore_file_load (client self) f = Inr job \<longrightarrow>
                file_name job = f"
      using poll_loop_started [OF p retrieve_or_spool_started [OF ok assms(2)]] .
    with a show ?thesis by simp
  qed
  have nojobs: "\<exists>w'. load_single_package fuel self load_id w_in = Some (Inr (), w') \<and>
                  archived w' = Some False \<and>
                  list_new_jobs w' = [] \<and> list_started_jobs w' = [] \<and>
                  trace w' = trace w1 @ [ev_complete_load load_id,
                                         ev_complete_load_package False]"
    if h: "jobs_count = 0 \<and> 0 < workers (config self)"
  proof -
    from h retrieve_or_spool_no_jobs [of self load_id w js w1] assms(2)
    have e: "list_started_jobs w1 = []" "list_new_jobs w1 = []" by auto
    let ?w' = "snd (complete_package self load_id False w1)"
    have cp: "complete_package self load_id False w1 = (Inr (), ?w')"
      using e
      by (simp add: complete_package_def complete_load_package_def list_new_jobs_def
          list_started_jobs_def log_def Let_def)
    have "load_single_package fuel self load_id w_in = Some (Inr (), ?w')"
      using assms h cp by (simp add: load_single_package_def)
    moreover have "archived ?w' = Some False"
      and "list_new_jobs ?w' = []" and "list_started_jobs ?w' = []"
      and "trace ?w' = trace w1 @ [ev_complete_load load_id, ev_complete_load_package False]"
      using e
      by (simp_all add: complete_package_def complete_load_package_def list_new_jobs_def
          list_started_jobs_def log_def Let_def)
    ultimately show ?thesis by blast
  qed
  from poll nojobs show ?thesis by blast
qed

theorem package_archived_by_run_without_jobs_witness:
  "(\<exists>w'. load_single_package 0 example_load ''1700000000'' all_done_world =
            Some (Inr (), w') \<and>
         archived w' = Some False \<and>
         trace w' = [ev_complete_load ''1700000000'', ev_complete_load_package False]) \<and>
   map_option (archived \<circ> snd)
     (load_single_package (Suc (Suc 0)) example_load ''1700000000'' example_world) =
     Some (archived example_world) \<and>
   map_option fst
     (load_single_package (Suc (Suc 0)) example_load ''1700000000'' merge_waiting_world) =
     Some (Inr ()) \<and>
   map_option (list_started_jobs \<circ> snd)
     (load_single_package (Suc (Suc 0)) example_load ''1700000000'' merge_waiting_world) =
     Some []"
proof -
  have us: "update_schema example_load ''1700000000'' W = (Inr (), W)"
    if "schema_update W = None" for W
    using that by (simp add: update_schema_def begin_schema_update_def)
  have su: "schema_update all_done_world = None" "schema_update example_world = None"
    "schema_update merge_waiting_world = None"
    by (simp_all add: all_done_world_def merge_waiting_world_def example_world_def)
  have r0: "retrieve_or_spool example_load ''1700000000'' all_done_world =
      (Inr (0, []), all_done_world)"
    by (simp add: retrieve_or_spool_def retrieve_jobs_def spool_new_jobs_def
        list_started_jobs_def list_new_jobs_def Let_def all_done_world_def)
  have wk: "0 = (0::nat) \<and> 0 < workers (config example_load)"
    by (simp add: example_load_def)
  have t0: "trace all_done_world = []"
    by (simp add: all_done_world_def example_world_def)
  have "\<exists>js w1. retrieve_or_spool example_load ''1700000000'' example_world =
      (Inr (Suc (Suc 0), js), w1)"
    by (simp add: loader_defs example_defs example_load_defs)
  then obtain js w1
    where r2: "retrieve_or_spool example_load ''1700000000'' example_world =
      (Inr (Suc (Suc 0), js), w1)"
    by blast
  have "\<exists>js w1. retrieve_or_spool example_load ''1700000000'' merge_waiting_world =
      (Inr (Suc (Suc 0), js), w1)"
    by (simp add: loader_defs example_defs example_load_defs merge_waiting_world_def)
  then obtain js' w1'
    where r3: "retrieve_or_spool example_load ''1700000000'' merge_waiting_world =
      (Inr (Suc (Suc 0), js'), w1')"
    by blast
  have n: "Suc (Suc 0) \<noteq> 0" by simp
  have ok: "\<forall>f job. client_restore_file_load (client example_load) f = Inr job \<longrightarrow>
      file_name job = f"
    by (auto simp: example_load_defs)
  obtain w' where run: "load_single_package (Suc (Suc 0)) example_load ''1700000000''
      example_world = Some (Inr (), w')"
    by (simp add: loader_defs example_defs example_load_defs)
  obtain w'' where run': "load_single_package (Suc (Suc 0)) example_load ''1700000000''
      merge_waiting_world = Some (Inr (), w'')"
    by (simp add: loader_defs example_defs example_load_defs merge_waiting_world_def)
  from package_archived_by_run_without_jobs [OF us [OF su(1)] r0, of 0, THEN conjunct2,
      rule_format, OF wk]
    package_archived_by_run_without_jobs [OF us [OF su(2)] r2, of "Suc (Suc 0)",
      THEN conjunct1, rule_format, OF n run, THEN conjunct1]
    package_archived_by_run_without_jobs [OF us [OF su(3)] r3, of "Suc (Suc 0)",
      THEN conjunct1, rule_format, OF n run', THEN conjunct2, THEN mp, OF ok]
    run run' t0
  show ?thesis by auto
qed

subsection \<open>The schema under the operations of the loader\<close>

lemma schema_cached_refl [simp]: "schema_cached T T"
  by (simp add: schema_cached_def)

lemma schema_cached_entry:
  assumes "schema_cached T T'"
  obtains (same) "map_of T' k = map_of T k"
  | (stored) t d where "map_of T k = Some t" "write_disposition t = None"
      "resolved_write_disposition T k d"
      "map_of T' k = Some (t\<lparr>write_disposition := Some d\<rparr>)"
  using assms unfolding schema_cached_def by blast

lemma schema_cached_resolved_fwd:
  assumes c: "schema_cached T T'"
  shows "resolved_write_disposition T0 x d \<Longrightarrow> T0 = T \<Longrightarrow> resolved_write_disposition T' x d"
proof (induction rule: resolved_write_disposition.induct)
  case (own tbls tn t d)
  from c show ?case
  proof (cases rule: schema_cached_entry [where k = tn])
    case same
    with own have "map_of T' tn = Some t" by simp
    with own.hyps(2) show ?thesis by (blast intro: resolved_write_disposition.own)
  next
    case (stored t0 d0)
    with own show ?thesis by simp
  qed
next
  case (inherited tbls tn t p d)
  have IH: "resolved_write_disposition T' p d"
    using inherited.IH inherited.prems by simp
  from c show ?case
  proof (cases rule: schema_cached_entry [where k = tn])
    case same
    with inherited have "map_of T' tn = Some t" by simp
    with IH inherited.hyps(2,3) show ?thesis
      by (blast intro: resolved_write_disposition.inherited)
  next
    case (stored t0 d0)
    from inherited.hyps inherited.prems have "resolved_write_disposition T tn d"
      by (blast intro: resolved_write_disposition.inherited)
    with stored(3) have "d0 = d" by (blast intro: resolved_write_disposition_unique)
    with stored(4) have "map_of T' tn = Some (t0\<lparr>write_disposition := Some d\<rparr>)" by simp
    then show ?thesis by (rule resolved_write_disposition.own) simp
  qed
qed

lemma schema_cached_resolved_bwd:
  assumes c: "schema_cached T T'"
  shows "resolved_write_disposition T0 x d \<Longrightarrow> T0 = T' \<Longrightarrow> resolved_write_disposition T x d"
proof (induction rule: resolved_write_disposition.induct)
  case (own tbls tn t d)
  from c show ?case
  proof (cases rule: schema_cached_entry [where k = tn])
    case same
    with own have "map_of T tn = Some t" by simp
    with own.hyps(2) show ?thesis by (blast intro: resolved_write_disposition.own)
  next
    case (stored t0 d0)
    with own have "d0 = d" by auto
    with stored(3) show ?thesis by simp
  qed
next
  case (inherited tbls tn t p d)
  have IH: "resolved_write_disposition T p d"
    using inherited.IH inherited.prems by simp
  from c show ?case
  proof (cases rule: schema_cached_entry [where k = tn])
    case same
    with inherited have "map_of T tn = Some t" by simp
    with IH inherited.hyps(2,3) show ?thesis
      by (blast intro: resolved_write_disposition.inherited)
  next
    case (stored t0 d0)
    with inherited.hyps(1,2) inherited.prems show ?thesis by auto
  qed
qed

lemma schema_cached_trans:
  assumes c1: "schema_cached T T'" and c2: "schema_cached T' T''"
  shows "schema_cached T T''"
  unfolding schema_cached_def
proof (intro conjI allI)
  from c1 c2 show "map fst T'' = map fst T" by (simp add: schema_cached_def)
next
  fix k
  from c2 show "map_of T'' k = map_of T k \<or>
          (\<exists>t d. map_of T k = Some t \<and> write_disposition t = None \<and>
                 resolved_write_disposition T k d \<and>
                 map_of T'' k = Some (t\<lparr>write_disposition := Some d\<rparr>))"
  proof (cases rule: schema_cached_entry [where k = k])
    case same
    from c1 show ?thesis
      by (cases rule: schema_cached_entry [where k = k]) (auto simp: same)
  next
    case s2: (stored t' d)
    have res: "resolved_write_disposition T k d"
      using schema_cached_resolved_bwd [OF c1 s2(3) refl] .
    from c1 show ?thesis
    proof (cases rule: schema_cached_entry [where k = k])
      case same
      with s2 res show ?thesis by auto
    next
      case (stored t0 d0)
      with s2 show ?thesis by auto
    qed
  qed
qed

lemma get_load_table_cached:
  assumes "get_load_table fname w = (r, w')"
  shows "schema_cached (tables w) (tables w')"
  using assms
proof (cases rule: get_load_table_cases)
  case unchanged
  then show ?thesis by simp
next
  case (stored t0 d)
  have res: "resolved_write_disposition (tables w) (table_name fname) d"
    by (rule get_write_disposition_rec_resolved
          [OF stored(3) [unfolded get_write_disposition_def]])
  from stored(5) have T: "tables w' =
      set_table (table_name fname) (t0\<lparr>write_disposition := Some d\<rparr>) (tables w)"
    by simp
  show ?thesis
    unfolding schema_cached_def T
    using stored(1,2) res
    by (auto simp: map_fst_set_table map_of_set_table)
qed

lemma tables_log [simp]: "tables (log es w) = tables w"
  by (simp add: log_def)

lemma tables_storage [simp]:
  "tables (start_job f w) = tables w"
  "tables (snd (fail_job f m w)) = tables w"
  "tables (retry_job f w) = tables w"
  "tables (snd (complete_job f w)) = tables w"
  "tables (add_new_job f folder w) = tables w"
  "tables (commit_schema_update applied w) = tables w"
  "tables (count_terminal st loc w) = tables w"
  by (simp_all add: start_job_def fail_job_def retry_job_def complete_job_def add_new_job_def
      commit_schema_update_def count_terminal_def)

lemma get_jobs_info_loop_cached:
  "get_jobs_info_loop fs disposition infos w = (r, w') \<Longrightarrow>
     schema_cached (tables w) (tables w')"
proof (induction fs arbitrary: infos w)
  case Nil
  then show ?case by auto
next
  case (Cons f fs)
  show ?case
  proof (cases "disposition = None \<or> disposition = Some []")
    case True
    with Cons.prems have "get_jobs_info_loop fs disposition (infos @ [f]) w = (r, w')"
      by simp
    then show ?thesis by (rule Cons.IH)
  next
    case False
    obtain r1 w1 where glt: "get_load_table f w = (r1, w1)"
      by (cases "get_load_table f w")
    note c1 = get_load_table_cached [OF glt]
    show ?thesis
    proof (cases r1)
      case (Inl e)
      with Cons.prems False glt c1 show ?thesis by auto
    next
      case (Inr table)
      with Cons.prems False glt
      have "get_jobs_info_loop fs disposition (infos @ [f]) w1 = (r, w') \<or>
            get_jobs_info_loop fs disposition infos w1 = (r, w')"
        by (auto split: if_splits)
      then have "schema_cached (tables w1) (tables w')"
        using Cons.IH by blast
      with c1 show ?thesis by (rule schema_cached_trans)
    qed
  qed
qed

lemma get_jobs_info_cached:
  "get_jobs_info load_id disposition w = (r, w') \<Longrightarrow> schema_cached (tables w) (tables w')"
  unfolding get_jobs_info_def by (rule get_jobs_info_loop_cached)

lemma w_spool_job_cached:
  assumes "w_spool_job self f load_id w = (job, w')"
  shows "schema_cached (tables w) (tables w')"
proof -
  obtain r1 w1 where t: "w_spool_job_try self f w = (r1, w1)"
    by (cases "w_spool_job_try self f w")
  have c1: "schema_cached (tables w) (tables w1)"
  proof (cases "file_format f \<in> set (supported_loader_file_formats self)")
    case False
    with t show ?thesis by (auto simp: w_spool_job_try_def)
  next
    case True
    obtain r0 w0 where glt: "get_load_table f w = (r0, w0)"
      by (cases "get_load_table f w")
    from get_load_table_cached [OF glt] have "schema_cached (tables w) (tables w0)" .
    with t True glt show ?thesis
      by (cases r0) (auto simp: w_spool_job_try_def split: option.splits if_splits)
  qed
  from assms t have "tables w' = tables w1"
    by (cases r1) (auto simp: w_spool_job_def Let_def split: if_splits)
  with c1 show ?thesis by simp
qed

lemma starmap_w_spool_job_cached:
  "starmap_w_spool_job self fs load_id w = (js, w') \<Longrightarrow>
     schema_cached (tables w) (tables w')"
proof (induction fs arbitrary: js w w')
  case Nil
  then show ?case by auto
next
  case (Cons f fs)
  obtain job w1 where s1: "w_spool_job self f load_id w = (job, w1)"
    by (cases "w_spool_job self f load_id w")
  obtain js2 w2 where s2: "starmap_w_spool_job self fs load_id w1 = (js2, w2)"
    by (cases "starmap_w_spool_job self fs load_id w1")
  from Cons.prems s1 s2 have "w' = w2" by simp
  with schema_cached_trans [OF w_spool_job_cached [OF s1] Cons.IH [OF s2]]
  show ?case by simp
qed

lemma spool_new_jobs_cached:
  assumes "spool_new_jobs self load_id w = (r, w')"
  shows "schema_cached (tables w) (tables w')"
proof (cases "take (workers (config self)) (list_new_jobs w) = []")
  case True
  with assms show ?thesis by (auto simp: spool_new_jobs_def Let_def)
next
  case False
  obtain js w1
    where s: "starmap_w_spool_job self (take (workers (config self)) (list_new_jobs w))
                load_id w = (js, w1)"
    by (metis prod.exhaust)
  with assms False have "w' = w1" by (simp add: spool_new_jobs_def Let_def)
  with starmap_w_spool_job_cached [OF s] show ?thesis by simp
qed

lemma retrieve_jobs_loop_tables:
  "retrieve_jobs_loop self fs js w = (r, w') \<Longrightarrow> tables w' = tables w"
proof (induction fs arbitrary: js w)
  case Nil
  then show ?case by simp
next
  case (Cons f fs)
  show ?case
  proof (cases "client_restore_file_load (client self) f")
    case (Inr job)
    with Cons.prems
    have "retrieve_jobs_loop self fs (js @ [job]) (log [ev_restore_file_load f] w) = (r, w')"
      by (simp add: Let_def)
    from Cons.IH [OF this] show ?thesis by simp
  next
    case (Inl e)
    show ?thesis
    proof (cases "is_DestinationTerminalException e")
      case True
      with Cons.prems Inl
      have "retrieve_jobs_loop self fs
              (js @ [EmptyLoadJob_from_file_path f failed (pretty_format_exception e)])
              (log [ev_restore_file_load f] w) = (r, w')"
        by (simp add: Let_def)
      from Cons.IH [OF this] show ?thesis by simp
    next
      case False
      with Cons.prems Inl show ?thesis by (auto simp: Let_def)
    qed
  qed
qed

lemma retrieve_jobs_tables:
  assumes "retrieve_jobs self load_id w = (r, w')"
  shows "tables w' = tables w"
proof (cases "list_started_jobs w = []")
  case True
  with assms show ?thesis by (auto simp: retrieve_jobs_def)
next
  case False
  obtain r0 w0 where l: "retrieve_jobs_loop self (list_started_jobs w) [] w = (r0, w0)"
    by (cases "retrieve_jobs_loop self (list_started_jobs w) [] w")
  from retrieve_jobs_loop_tables [OF l] assms False l show ?thesis
    by (cases r0) (auto simp: retrieve_jobs_def Let_def)
qed

lemma retrieve_or_spool_cached:
  assumes "retrieve_or_spool self load_id w = (r, w')"
  shows "schema_cached (tables w) (tables w')"
proof -
  obtain r1 w1 where rj: "retrieve_jobs self load_id w = (r1, w1)"
    by (cases "retrieve_jobs self load_id w")
  note t1 = retrieve_jobs_tables [OF rj]
  show ?thesis
  proof (cases r1)
    case (Inl e)
    with assms rj t1 show ?thesis by (auto simp: retrieve_or_spool_def)
  next
    case (Inr p)
    obtain n js where p: "p = (n, js)" by (cases p)
    show ?thesis
    proof (cases "js = []")
      case False
      with assms rj Inr p t1 show ?thesis by (auto simp: retrieve_or_spool_def)
    next
      case True
      obtain n2 js2 w2 where sp: "spool_new_jobs self load_id w1 = ((n2, js2), w2)"
        by (metis prod.exhaust)
      from spool_new_jobs_cached [OF sp] t1
      have "schema_cached (tables w) (tables w2)" by simp
      moreover from assms rj Inr p True sp have "tables w' = tables w2"
        by (auto simp: retrieve_or_spool_def split: if_splits)
      ultimately show ?thesis by simp
    qed
  qed
qed

lemma create_followup_jobs_cached:
  assumes "create_followup_jobs self load_id st starting_job w = (r, w')"
  shows "schema_cached (tables w) (tables w')"
proof (cases "followup starting_job \<and> st = completed")
  case False
  with assms have "w' = w"
    by (auto simp: create_followup_jobs_def split: if_splits)
  then show ?thesis by simp
next
  case True
  obtain r1 w1 where glt: "get_load_table (file_name starting_job) w = (r1, w1)"
    by (cases "get_load_table (file_name starting_job) w")
  note c1 = get_load_table_cached [OF glt]
  have "w' = w1 \<or> (\<exists>tp r2. create_merge_job self load_id tp starting_job w1 = (r2, w'))"
    using assms True glt
    by (auto simp: create_followup_jobs_def
        split: sum.splits option.splits if_splits prod.splits)
  then have "tables w' = tables w1"
    using create_merge_job_world by fastforce
  with c1 show ?thesis by simp
qed

lemma complete_jobs_loop_cached:
  "complete_jobs_loop self load_id js remaining w = (r, w') \<Longrightarrow>
     schema_cached (tables w) (tables w')"
proof (induction js arbitrary: remaining w)
  case Nil
  then show ?case by auto
next
  case (Cons job js)
  show ?case
  proof (cases "state job")
    case running
    with Cons.prems Cons.IH show ?thesis by auto
  next
    case failed
    show ?thesis
    proof (cases "raise_on_failed_jobs (config self)")
      case True
      with Cons.prems failed show ?thesis by (auto simp: fail_job_def)
    next
      case False
      let ?w2 = "count_terminal failed (file_name job, failed_jobs)
                   (snd (fail_job (file_name job) (exception job) w))"
      from Cons.prems failed False
      have "complete_jobs_loop self load_id js remaining ?w2 = (r, w')"
        by (simp add: fail_job_def)
      from Cons.IH [OF this] show ?thesis by simp
    qed
  next
    case retry
    with Cons.prems
    have "complete_jobs_loop self load_id js remaining (retry_job (file_name job) w) = (r, w')"
      by simp
    from Cons.IH [OF this] show ?thesis by simp
  next
    case completed
    obtain r1 w1 where c: "create_followup_jobs self load_id completed job w = (r1, w1)"
      by (cases "create_followup_jobs self load_id completed job w")
    note c1 = create_followup_jobs_cached [OF c]
    show ?thesis
    proof (cases r1)
      case (Inl e)
      with Cons.prems completed c c1 show ?thesis by simp
    next
      case (Inr fjs)
      let ?w3 = "count_terminal completed (file_name job, completed_jobs)
                   (snd (complete_job (file_name job)
                      (snd (add_followup_jobs fjs remaining w1))))"
      have loop: "complete_jobs_loop self load_id js
                    (remaining @ filter (\<lambda>fj. state fj \<noteq> running) fjs) ?w3 = (r, w')"
        using Cons.prems completed c Inr
        by (simp add: add_followup_jobs_result complete_job_def)
      have "tables ?w3 = tables w1"
        by (simp add: add_followup_jobs_result)
      with Cons.IH [OF loop] c1 show ?thesis
        by (simp add: schema_cached_trans)
    qed
  qed
qed

lemma complete_package_tables:
  "complete_package self load_id aborted w = (r, w') \<Longrightarrow> tables w' = tables w"
  by (auto simp: complete_package_def complete_load_package_def Let_def split: if_splits)

lemma poll_loop_cached:
  "poll_loop n self load_id js w = Some (r, w') \<Longrightarrow> schema_cached (tables w) (tables w')"
proof (induction n arbitrary: js w)
  case 0
  then show ?case by simp
next
  case (Suc n)
  obtain r1 w1 where c: "complete_jobs self load_id js w = (r1, w1)"
    by (cases "complete_jobs self load_id js w")
  note c1 = complete_jobs_loop_cached [OF c [unfolded complete_jobs_def]]
  show ?case
  proof (cases r1)
    case (Inl e)
    obtain r2 w2 where cp: "complete_package self load_id True w1 = (r2, w2)"
      by (cases "complete_package self load_id True w1")
    from Suc.prems c Inl cp have "w' = w1 \<or> w' = w2"
      by (auto split: if_splits sum.splits)
    with complete_package_tables [OF cp] c1 show ?thesis by auto
  next
    case (Inr remaining)
    show ?thesis
    proof (cases "remaining = []")
      case True
      with Suc.prems c Inr c1 show ?thesis by auto
    next
      case False
      with Suc.prems c Inr have "poll_loop n self load_id remaining w1 = Some (r, w')"
        by simp
      from schema_cached_trans [OF c1 Suc.IH [OF this]] show ?thesis .
    qed
  qed
qed

lemma update_schema_cached:
  assumes "update_schema self load_id w = (r, w')"
  shows "schema_cached (tables w) (tables w')"
proof (cases "begin_schema_update w")
  case None
  with assms show ?thesis by (auto simp: update_schema_def)
next
  case (Some expected)
  let ?w1 = "log [ev_initialize_storage False []] w"
  obtain r2 w2 where g1: "get_jobs_info load_id None ?w1 = (r2, w2)"
    by (cases "get_jobs_info load_id None ?w1")
  from get_jobs_info_cached [OF g1]
  have c2: "schema_cached (tables w) (tables w2)" by simp
  show ?thesis
  proof (cases r2)
    case (Inl e)
    with assms Some g1 c2 show ?thesis by (auto simp: update_schema_def Let_def)
  next
    case (Inr all_jobs)
    let ?w3 = "log [ev_update_storage_schema False
                 (map table_name all_jobs @ map name (dlt_tables w2))] w2"
    obtain r4 w4 where g2: "get_jobs_info load_id (Some ''merge'') ?w3 = (r4, w4)"
      by (cases "get_jobs_info load_id (Some ''merge'') ?w3")
    from get_jobs_info_cached [OF g2] have "schema_cached (tables w2) (tables w4)" by simp
    with c2 have c4: "schema_cached (tables w) (tables w4)" by (rule schema_cached_trans)
    from assms Some g1 Inr g2 have "tables w' = tables w4"
      by (cases r4) (auto simp: update_schema_def Let_def split: if_splits)
    with c4 show ?thesis by simp
  qed
qed

lemma load_single_package_cached:
  assumes "load_single_package fuel self load_id w = Some (r, w')"
  shows "schema_cached (tables w) (tables w')"
proof -
  obtain r1 w1 where us: "update_schema self load_id w = (r1, w1)"
    by (cases "update_schema self load_id w")
  note c1 = update_schema_cached [OF us]
  show ?thesis
  proof (cases r1)
    case (Inl e)
    with assms us c1 show ?thesis by (auto simp: load_single_package_def)
  next
    case (Inr u)
    obtain r2 w2 where rs: "retrieve_or_spool self load_id w1 = (r2, w2)"
      by (cases "retrieve_or_spool self load_id w1")
    from schema_cached_trans [OF c1 retrieve_or_spool_cached [OF rs]]
    have c2: "schema_cached (tables w) (tables w2)" .
    show ?thesis
    proof (cases r2)
      case (Inl e)
      with assms us Inr rs c2 show ?thesis by (auto simp: load_single_package_def)
    next
      case r2: (Inr p)
      obtain n js where p: "p = (n, js)" by (cases p)
      show ?thesis
      proof (cases "n = 0")
        case True
        with assms us Inr rs r2 p
        have "complete_package self load_id False w2 = (r, w')"
          by (simp add: load_single_package_def)
        from complete_package_tables [OF this] c2 show ?thesis by simp
      next
        case False
        with assms us Inr rs r2 p
        have "poll_loop fuel self load_id js w2 = Some (r, w')"
          by (simp add: load_single_package_def)
        from schema_cached_trans [OF c2 poll_loop_cached [OF this]] show ?thesis .
      qed
    qed
  qed
qed

text \<open>
  Claim C7, amended: the operations of the loader change the schema in one way only.
  \<open>get_load_table\<close> changes nothing but the tables of the schema; it keeps the table
  names and their order; and the only entry it changes is the table of the job file, when
  that table has no write disposition and one is found along its parents: that write
  disposition is stored on the table. The operations that use \<open>get_load_table\<close>
  (\<open>get_jobs_info\<close>, the spooling of one file and of a batch, the planning of followup
  jobs, \<open>complete_jobs\<close>, and a whole run of \<open>load_single_package\<close>) leave a schema with the
  same table names in the same order, in which every table is as before or has its
  resolved write disposition stored where it had none. \<open>retrieve_jobs\<close> and
  \<open>complete_package\<close> leave the tables as they are.
\<close>

theorem loader_changes_schema_by_caching_only:
  "(\<forall>r w'. get_load_table fname w = (r, w') \<longrightarrow>
      w'\<lparr>tables := tables w\<rparr> = w \<and> map fst (tables w') = map fst (tables w) \<and>
      (\<forall>k. map_of (tables w') k =
         (case map_of (tables w) k of
            None \<Rightarrow> None
          | Some t \<Rightarrow>
              if k = table_name fname \<and> write_disposition t = None
              then (case get_write_disposition (tables w) k of
                      Inr d \<Rightarrow> Some (t\<lparr>write_disposition := Some d\<rparr>)
                    | Inl e \<Rightarrow> Some t)
              else Some t))) \<and>
   schema_cached (tables w) (tables (snd (get_load_table fname w))) \<and>
   schema_cached (tables w) (tables (snd (get_jobs_info load_id disposition w))) \<and>
   schema_cached (tables w) (tables (snd (w_spool_job self fname load_id w))) \<and>
   schema_cached (tables w) (tables (snd (spool_new_jobs self load_id w))) \<and>
   tables (snd (retrieve_jobs self load_id w)) = tables w \<and>
   schema_cached (tables w)
     (tables (snd (create_followup_jobs self load_id st starting_job w))) \<and>
   schema_cached (tables w) (tables (snd (complete_jobs self load_id js w))) \<and>
   tables (snd (complete_package self load_id aborted w)) = tables w \<and>
   (\<forall>r w'. load_single_package fuel self load_id w = Some (r, w') \<longrightarrow>
      schema_cached (tables w) (tables w'))"
proof -
  have g: "\<forall>r w'. get_load_table fname w = (r, w') \<longrightarrow>
      w'\<lparr>tables := tables w\<rparr> = w \<and> map fst (tables w') = map fst (tables w) \<and>
      (\<forall>k. map_of (tables w') k =
         (case map_of (tables w) k of
            None \<Rightarrow> None
          | Some t \<Rightarrow>
              if k = table_name fname \<and> write_disposition t = None
              then (case get_write_disposition (tables w) k of
                      Inr d \<Rightarrow> Some (t\<lparr>write_disposition := Some d\<rparr>)
                    | Inl e \<Rightarrow> Some t)
              else Some t))"
    by (intro allI impI) (rule get_load_table_exact)
  have c1: "schema_cached (tables w) (tables (snd (get_load_table fname w)))"
    by (rule get_load_table_cached [OF prod.collapse [symmetric]])
  have c2: "schema_cached (tables w) (tables (snd (get_jobs_info load_id disposition w)))"
    by (rule get_jobs_info_cached [OF prod.collapse [symmetric]])
  have c3: "schema_cached (tables w) (tables (snd (w_spool_job self fname load_id w)))"
    by (rule w_spool_job_cached [OF prod.collapse [symmetric]])
  have c4: "schema_cached (tables w) (tables (snd (spool_new_jobs self load_id w)))"
    by (rule spool_new_jobs_cached [OF prod.collapse [symmetric]])
  have c5: "tables (snd (retrieve_jobs self load_id w)) = tables w"
    by (rule retrieve_jobs_tables [OF prod.collapse [symmetric]])
  have c6: "schema_cached (tables w)
     (tables (snd (create_followup_jobs self load_id st starting_job w)))"
    by (rule create_followup_jobs_cached [OF prod.collapse [symmetric]])
  have c7: "schema_cached (tables w) (tables (snd (complete_jobs self load_id js w)))"
    unfolding complete_jobs_def
    by (rule complete_jobs_loop_cached [OF prod.collapse [symmetric]])
  have c8: "tables (snd (complete_package self load_id aborted w)) = tables w"
    by (rule complete_package_tables [OF prod.collapse [symmetric]])
  have c9: "\<forall>r w'. load_single_package fuel self load_id w = Some (r, w') \<longrightarrow>
      schema_cached (tables w) (tables w')"
    by (intro allI impI) (rule load_single_package_cached)
  show ?thesis
    by (intro conjI) (fact g, fact c1, fact c2, fact c3, fact c4, fact c5, fact c6, fact c7,
        fact c8, fact c9)
qed

theorem loader_changes_schema_by_caching_only_witness:
  "map_of (tables (snd (get_load_table orders_items_file example_world))) ''orders__items'' =
     Some (orders_items_table\<lparr>write_disposition := Some ''merge''\<rparr>) \<and>
   map_of (tables (snd (get_load_table orders_items_file example_world))) ''orders'' =
     Some orders_table \<and>
   (\<exists>w'. load_single_package (Suc (Suc 0)) example_load ''1700000000'' example_world =
           Some (Inr (), w') \<and>
         schema_cached (tables example_world) (tables w'))"
proof -
  obtain w' where run: "load_single_package (Suc (Suc 0)) example_load ''1700000000''
      example_world = Some (Inr (), w')"
    by (simp add: loader_defs example_defs example_load_defs)
  have "schema_cached (tables example_world) (tables w')"
    using loader_changes_schema_by_caching_only [THEN conjunct2, THEN conjunct2,
        THEN conjunct2, THEN conjunct2, THEN conjunct2, THEN conjunct2, THEN conjunct2,
        THEN conjunct2, THEN conjunct2, rule_format, OF run] .
  moreover have "map_of (tables (snd (get_load_table orders_items_file example_world)))
        ''orders__items'' = Some (orders_items_table\<lparr>write_disposition := Some ''merge''\<rparr>)"
    and "map_of (tables (snd (get_load_table orders_items_file example_world))) ''orders'' =
        Some orders_table"
    using loader_changes_schema_by_caching_only [THEN conjunct1, rule_format,
        OF prod.collapse [symmetric], where fname = orders_items_file
          and w = example_world]
    by (simp_all add: get_write_disposition_def example_defs)
  ultimately show ?thesis using run by blast
qed

end
